theory Spec2Isabelle
  imports Complex_Main
begin

section \<open>Python and numpy values\<close>

text \<open>
  The risk engine computes on IEEE doubles through numpy, pandas and scipy.  A finite
  double is modelled as the real number it denotes, and a real argument stands for the
  double nearest to it, as a decimal literal does in Python.  \<open>fval\<close> adds NaN and the
  two infinities to the finite values, with the IEEE rules for them.

  In the VaR index, in the VaR and Expected Shortfall figures and in the alert monitor
  every operation rounds its exact result to the nearest double, ties to even, with
  gradual underflow, and a result beyond the double range becomes an infinity.  The
  summation inside numpy's \<^verbatim>\<open>mean\<close>, whose order the source does not fix, is a parameter.
  The log returns, the parametric VaR, the Kupiec statistic and the stress losses are
  computed on the exact values.

  A return series handed to the VaR, backtest and alert operations is a list of finite
  values.
\<close>

datatype py_error = IndexError | KeyError | ZeroDivisionError

datatype fval = NaN | NInf | Fin real | PInf

definition bind_err :: "py_error + 'a \<Rightarrow> ('a \<Rightarrow> py_error + 'b) \<Rightarrow> py_error + 'b" where
  "bind_err r f = (case r of Inl e \<Rightarrow> Inl e | Inr v \<Rightarrow> f v)"

fun isnan :: "fval \<Rightarrow> bool" where
  "isnan NaN = True"
| "isnan _ = False"

fun fneg :: "fval \<Rightarrow> fval" where
  "fneg NaN = NaN"
| "fneg NInf = PInf"
| "fneg PInf = NInf"
| "fneg (Fin a) = Fin (- a)"

fun fabs :: "fval \<Rightarrow> fval" where
  "fabs NaN = NaN"
| "fabs NInf = PInf"
| "fabs PInf = PInf"
| "fabs (Fin a) = Fin \<bar>a\<bar>"

fun fadd :: "fval \<Rightarrow> fval \<Rightarrow> fval" where
  "fadd NaN _ = NaN"
| "fadd _ NaN = NaN"
| "fadd (Fin a) (Fin b) = Fin (a + b)"
| "fadd PInf NInf = NaN"
| "fadd NInf PInf = NaN"
| "fadd PInf _ = PInf"
| "fadd _ PInf = PInf"
| "fadd NInf _ = NInf"
| "fadd _ NInf = NInf"

definition fsub :: "fval \<Rightarrow> fval \<Rightarrow> fval" where
  "fsub a b = fadd a (fneg b)"

text \<open>The sign of an infinite product or quotient: positive when the flag is true.\<close>

definition inf_of_sign :: "bool \<Rightarrow> fval" where
  "inf_of_sign pos = (if pos then PInf else NInf)"

fun fmul :: "fval \<Rightarrow> fval \<Rightarrow> fval" where
  "fmul NaN _ = NaN"
| "fmul _ NaN = NaN"
| "fmul (Fin a) (Fin b) = Fin (a * b)"
| "fmul (Fin a) PInf = (if a = 0 then NaN else inf_of_sign (0 < a))"
| "fmul (Fin a) NInf = (if a = 0 then NaN else inf_of_sign (a < 0))"
| "fmul PInf (Fin b) = (if b = 0 then NaN else inf_of_sign (0 < b))"
| "fmul NInf (Fin b) = (if b = 0 then NaN else inf_of_sign (b < 0))"
| "fmul PInf PInf = PInf"
| "fmul NInf NInf = PInf"
| "fmul PInf NInf = NInf"
| "fmul NInf PInf = NInf"

text \<open>
  numpy's division on doubles: a finite non-zero value over zero is an infinity, zero
  over zero and an infinity over an infinity are NaN, nothing raises.
\<close>

fun fdiv :: "fval \<Rightarrow> fval \<Rightarrow> fval" where
  "fdiv NaN _ = NaN"
| "fdiv _ NaN = NaN"
| "fdiv (Fin a) (Fin b) =
     (if b \<noteq> 0 then Fin (a / b) else if a = 0 then NaN else inf_of_sign (0 < a))"
| "fdiv (Fin a) PInf = Fin 0"
| "fdiv (Fin a) NInf = Fin 0"
| "fdiv PInf (Fin b) = inf_of_sign (0 \<le> b)"
| "fdiv NInf (Fin b) = inf_of_sign (b < 0)"
| "fdiv PInf PInf = NaN"
| "fdiv PInf NInf = NaN"
| "fdiv NInf PInf = NaN"
| "fdiv NInf NInf = NaN"

text \<open>\<^verbatim>\<open>np.log\<close>: minus infinity at zero, NaN below zero.\<close>

fun np_log :: "fval \<Rightarrow> fval" where
  "np_log NaN = NaN"
| "np_log NInf = NaN"
| "np_log PInf = PInf"
| "np_log (Fin a) = (if 0 < a then Fin (ln a) else if a = 0 then NInf else NaN)"

text \<open>Comparisons are false as soon as one side is NaN.\<close>

fun fless :: "fval \<Rightarrow> fval \<Rightarrow> bool" where
  "fless NaN _ = False"
| "fless _ NaN = False"
| "fless (Fin a) (Fin b) = (a < b)"
| "fless NInf NInf = False"
| "fless NInf _ = True"
| "fless PInf _ = False"
| "fless (Fin a) PInf = True"
| "fless (Fin a) NInf = False"

definition fgt :: "fval \<Rightarrow> fval \<Rightarrow> bool" where
  "fgt a b = fless b a"

fun fle :: "fval \<Rightarrow> fval \<Rightarrow> bool" where
  "fle NaN _ = False"
| "fle _ NaN = False"
| "fle (Fin a) (Fin b) = (a \<le> b)"
| "fle NInf _ = True"
| "fle PInf PInf = True"
| "fle PInf _ = False"
| "fle (Fin a) PInf = True"
| "fle (Fin a) NInf = False"

fun is_finite :: "fval \<Rightarrow> bool" where
  "is_finite (Fin _) = True"
| "is_finite _ = False"

subsection \<open>Rounding to the nearest double\<close>

text \<open>
  \<open>round_half_even\<close> rounds a real to the nearest integer, a tie to the even one.
  \<open>quantum x\<close> is the spacing of the doubles around \<open>x\<close>: with \<open>2^e \<le> |x| < 2^(e+1)\<close> it
  is \<open>2^(e-52)\<close>, and \<open>2^(-1074)\<close> below the normal range.  \<open>rnd x\<close> is the multiple of the
  quantum nearest to \<open>x\<close>.
\<close>

definition round_half_even :: "real \<Rightarrow> int" where
  "round_half_even y =
     (let f = \<lfloor>y\<rfloor>; d = y - of_int f
      in if d < 1/2 then f else if 1/2 < d then f + 1 else if even f then f else f + 1)"

definition expo :: "real \<Rightarrow> int" where
  "expo x = max \<lfloor>log 2 \<bar>x\<bar>\<rfloor> (- 1022)"

definition quantum :: "real \<Rightarrow> real" where
  "quantum x = 2 powr (of_int (expo x) - 52)"

definition rnd :: "real \<Rightarrow> real" where
  "rnd x = (if x = 0 then 0 else of_int (round_half_even (x / quantum x)) * quantum x)"

text \<open>The double a value stands for: a finite value beyond the range is an infinity.\<close>

definition fround :: "fval \<Rightarrow> fval" where
  "fround v =
     (case v of
        Fin x \<Rightarrow> if 2 ^ 1024 \<le> \<bar>rnd x\<bar> then inf_of_sign (0 < x) else Fin (rnd x)
      | _ \<Rightarrow> v)"

text \<open>
  The operations on doubles: the operands are read as doubles, the exact result is
  rounded.  A comparison reads both sides as doubles.
\<close>

definition d_add :: "fval \<Rightarrow> fval \<Rightarrow> fval" where
  "d_add a b = fround (fadd (fround a) (fround b))"

definition d_sub :: "fval \<Rightarrow> fval \<Rightarrow> fval" where
  "d_sub a b = fround (fsub (fround a) (fround b))"

definition d_mul :: "fval \<Rightarrow> fval \<Rightarrow> fval" where
  "d_mul a b = fround (fmul (fround a) (fround b))"

definition d_div :: "fval \<Rightarrow> fval \<Rightarrow> fval" where
  "d_div a b = fround (fdiv (fround a) (fround b))"

definition d_gt :: "fval \<Rightarrow> fval \<Rightarrow> bool" where
  "d_gt a b = fgt (fround a) (fround b)"

text \<open>
  The same subtraction and multiplication on finite values that stay in range, for the
  VaR index: the length of a sequence is below \<open>2^63\<close>, and the product with it leaves the
  double range only for a confidence level of magnitude above \<open>2^960\<close>.
\<close>

definition r_sub :: "real \<Rightarrow> real \<Rightarrow> real" where
  "r_sub a b = rnd (rnd a - rnd b)"

definition r_mul :: "real \<Rightarrow> real \<Rightarrow> real" where
  "r_mul a b = rnd (rnd a * rnd b)"


text \<open>\<^verbatim>\<open>int(x)\<close> on a float truncates towards zero.\<close>

definition py_int :: "real \<Rightarrow> int" where
  "py_int x = (if 0 \<le> x then \<lfloor>x\<rfloor> else \<lceil>x\<rceil>)"

text \<open>
  Indexing a list or an array with an integer: a negative index counts from the end, an
  index out of range raises \<^verbatim>\<open>IndexError\<close>.
\<close>

definition py_index :: "'a list \<Rightarrow> int \<Rightarrow> py_error + 'a" where
  "py_index xs i =
     (if 0 \<le> i \<and> i < int (length xs) then Inr (xs ! nat i)
      else if i < 0 \<and> - int (length xs) \<le> i then Inr (xs ! nat (int (length xs) + i))
      else Inl IndexError)"

text \<open>The slice \<^verbatim>\<open>xs[:j]\<close>: a negative bound counts from the end, nothing raises.\<close>

definition py_slice_to :: "'a list \<Rightarrow> int \<Rightarrow> 'a list" where
  "py_slice_to xs j = (if 0 \<le> j then take (nat j) xs else take (nat (int (length xs) + j)) xs)"

text \<open>The slice \<^verbatim>\<open>xs[-n:]\<close>; for \<open>n = 0\<close> it is the whole list.\<close>

definition py_slice_last :: "'a list \<Rightarrow> int \<Rightarrow> 'a list" where
  "py_slice_last xs n =
     (if 0 < n then drop (length xs - nat n) xs else drop (nat (- n)) xs)"

text \<open>\<^verbatim>\<open>a / b\<close> on Python ints.\<close>

definition py_truediv :: "int \<Rightarrow> int \<Rightarrow> py_error + real" where
  "py_truediv a b = (if b = 0 then Inl ZeroDivisionError else Inr (real_of_int a / real_of_int b))"

text \<open>\<^verbatim>\<open>x ** e\<close> for a Python float and a Python int.\<close>

definition py_pow :: "real \<Rightarrow> int \<Rightarrow> py_error + real" where
  "py_pow x e =
     (if 0 \<le> e then Inr (x ^ nat e)
      else if x = 0 then Inl ZeroDivisionError
      else Inr (1 / x ^ nat (- e)))"

text \<open>\<^verbatim>\<open>str(i)\<close> for a Python int.\<close>

definition digit_char :: "nat \<Rightarrow> char" where
  "digit_char d = ''0123456789'' ! d"

function str_nat :: "nat \<Rightarrow> string" where
  "str_nat n = (if n < 10 then [digit_char n] else str_nat (n div 10) @ [digit_char (n mod 10)])"
  by pat_completeness auto
termination
  by (relation "measure id") auto

declare str_nat.simps [simp del]

definition str_int :: "int \<Rightarrow> string" where
  "str_int i = (if i < 0 then CHR ''-'' # str_nat (nat (- i)) else str_nat (nat i))"

text \<open>The substring test \<^verbatim>\<open>pat in s\<close> on strings.\<close>

fun str_contains :: "string \<Rightarrow> string \<Rightarrow> bool" where
  "str_contains pat [] = (pat = [])"
| "str_contains pat (c # cs) = (take (length pat) (c # cs) = pat \<or> str_contains pat cs)"

text \<open>A loop over a list whose body may raise: the first error ends it.\<close>

fun for_each :: "('s \<Rightarrow> 'a \<Rightarrow> py_error + 's) \<Rightarrow> 'a list \<Rightarrow> 's \<Rightarrow> py_error + 's" where
  "for_each body [] s = Inr s"
| "for_each body (x # xs) s = bind_err (body s x) (for_each body xs)"


section \<open>ReturnsEngine\<close>

text \<open>
  \<^verbatim>\<open>calculate_returns\<close> takes the price frame, of which only the \<^verbatim>\<open>Close\<close> column
  is read: a list of doubles in row order, NaN where a price is missing.  \<^verbatim>\<open>shift(1)\<close>
  moves the column down by one row and fills the first row with NaN, the division and
  the logarithm are elementwise, and \<^verbatim>\<open>dropna\<close> removes the NaN entries: pandas does
  not count an infinity as missing.
\<close>

definition shift1 :: "fval list \<Rightarrow> fval list" where
  "shift1 xs = take (length xs) (NaN # xs)"

definition dropna :: "fval list \<Rightarrow> fval list" where
  "dropna xs = filter (\<lambda>v. \<not> isnan v) xs"

definition calculate_returns :: "fval list option \<Rightarrow> fval list option" where
  "calculate_returns price_data =
     (case price_data of
        None \<Rightarrow> None
      | Some close \<Rightarrow>
          if length close < 2 then None
          else let returns = map np_log (map2 fdiv close (shift1 close))
               in Some (dropna returns))"

text \<open>
  The series the specification names: the logarithm of \<open>P[t] / P[t-1]\<close> for
  \<open>t = 1, \<dots>, n - 1\<close>, in numpy's arithmetic.
\<close>

definition log_return_series :: "fval list \<Rightarrow> fval list" where
  "log_return_series close =
     map (\<lambda>t. np_log (fdiv (close ! t) (close ! (t - 1)))) [1..<length close]"


section \<open>VaRCalculator\<close>

text \<open>
  The two result dictionaries.  Both have a \<^verbatim>\<open>confidence\<close> and a \<^verbatim>\<open>method\<close> key;
  the record fields carry a prefix to keep them apart.
\<close>

record var_result =
  var_return :: fval
  var_dollar :: fval
  var_confidence :: real
  var_method :: string

record es_result =
  es_return :: fval
  es_dollar :: fval
  es_confidence :: real
  es_method :: string

text \<open>
  \<^verbatim>\<open>historical_var\<close> returns \<^verbatim>\<open>None\<close> on a missing or short series, and raises where
  the index computed from the confidence level falls outside the sorted array.
\<close>

definition historical_var :: "real list option \<Rightarrow> real \<Rightarrow> real \<Rightarrow> py_error + var_result option" where
  "historical_var returns confidence_level position_value =
     (case returns of
        None \<Rightarrow> Inr None
      | Some rs \<Rightarrow>
          if length rs < 10 then Inr None
          else
            let sorted_returns = sort rs;
                var_index = py_int (r_mul (r_sub 1 confidence_level)
                                          (real (length sorted_returns)))
            in bind_err (py_index sorted_returns var_index) (\<lambda>v.
                 Inr (Some \<lparr>var_return = d_mul (fabs (Fin v)) (Fin 100),
                            var_dollar = fabs (d_mul (Fin v) (Fin position_value)),
                            var_confidence = confidence_level,
                            var_method = ''Historical Simulation''\<rparr>)))"

text \<open>
  \<^verbatim>\<open>mean()\<close> of an array: NaN for the empty one, otherwise numpy's sum of the elements
  (the parameter \<open>np_sum\<close>) divided by their number.
\<close>

definition np_mean :: "(real list \<Rightarrow> fval) \<Rightarrow> real list \<Rightarrow> fval" where
  "np_mean np_sum xs = (if xs = [] then NaN else d_div (np_sum xs) (Fin (real (length xs))))"

definition expected_shortfall ::
  "(real list \<Rightarrow> fval) \<Rightarrow> real list option \<Rightarrow> real \<Rightarrow> real \<Rightarrow> es_result option" where
  "expected_shortfall np_sum returns confidence_level position_value =
     (case returns of
        None \<Rightarrow> None
      | Some rs \<Rightarrow>
          if length rs < 10 then None
          else
            let sorted_returns = sort rs;
                var_index = py_int (r_mul (r_sub 1 confidence_level)
                                          (real (length sorted_returns)));
                tail_returns = py_slice_to sorted_returns (var_index + 1);
                es_ret = fabs (np_mean np_sum tail_returns);
                es_dol = d_mul es_ret (Fin position_value)
            in Some \<lparr>es_return = d_mul es_ret (Fin 100),
                      es_dollar = es_dol,
                      es_confidence = confidence_level,
                      es_method = ''Expected Shortfall''\<rparr>)"

text \<open>
  The index the specification names, \<open>k = floor ((1 - c) * n)\<close>, with the subtraction and
  the product in double arithmetic as the code computes them.
\<close>

definition var_index_of :: "real \<Rightarrow> nat \<Rightarrow> nat" where
  "var_index_of c n = nat \<lfloor>r_mul (r_sub 1 c) (real n)\<rfloor>"

text \<open>
  Summation from left to right in double arithmetic.  For a list of one or two elements,
  and for three equal elements, every order of summation gives this result.
\<close>

definition sum_left_to_right :: "real list \<Rightarrow> fval" where
  "sum_left_to_right xs = foldl d_add (Fin 0) (map Fin xs)"

text \<open>
  \<^verbatim>\<open>parametric_var\<close> reads the mean and the standard deviation of the series as pandas
  computes them (the sample deviation, with \<open>n - 1\<close> in the denominator) and the normal
  quantile of scipy, which is a parameter of the model.
\<close>

definition series_mean :: "real list \<Rightarrow> real" where
  "series_mean xs = sum_list xs / real (length xs)"

definition series_std :: "real list \<Rightarrow> real" where
  "series_std xs =
     sqrt (sum_list (map (\<lambda>x. (x - series_mean xs)\<^sup>2) xs) / real (length xs - 1))"

definition parametric_var :: "(real \<Rightarrow> fval) \<Rightarrow> real list option \<Rightarrow> real \<Rightarrow> real \<Rightarrow> var_result option" where
  "parametric_var norm_ppf returns confidence_level position_value =
     (case returns of
        None \<Rightarrow> None
      | Some rs \<Rightarrow>
          if length rs < 10 then None
          else
            let mean = series_mean rs;
                std = series_std rs;
                z_score = norm_ppf (1 - confidence_level);
                var_ret = fabs (fadd (Fin mean) (fmul z_score (Fin std)));
                var_dol = fmul var_ret (Fin position_value)
            in Some \<lparr>var_return = fmul var_ret (Fin 100),
                      var_dollar = var_dol,
                      var_confidence = confidence_level,
                      var_method = ''Parametric (Normal)''\<rparr>)"

text \<open>
  The dictionary of \<^verbatim>\<open>calculate_all_metrics\<close> maps a key such as \<^verbatim>\<open>var_95%_hist\<close> to a
  VaR or an ES dictionary.  The loop body is \<open>metrics_for_confidence\<close>; a result
  dictionary is never empty, so \<^verbatim>\<open>if hist_var:\<close> tests for \<^verbatim>\<open>None\<close>.
\<close>

datatype metric = VarMetric var_result | EsMetric es_result

definition conf_label :: "real \<Rightarrow> string" where
  "conf_label conf = str_int (py_int (conf * 100)) @ ''%''"

definition metrics_for_confidence ::
  "(real list \<Rightarrow> fval) \<Rightarrow> (real \<Rightarrow> fval) \<Rightarrow> real list option \<Rightarrow> real \<Rightarrow> (string \<rightharpoonup> metric)
     \<Rightarrow> real \<Rightarrow> py_error + (string \<rightharpoonup> metric)" where
  "metrics_for_confidence np_sum norm_ppf returns position_value metrics conf =
     (let label = conf_label conf in
      bind_err (historical_var returns conf position_value) (\<lambda>hist_var.
        let metrics1 = (case hist_var of
                          None \<Rightarrow> metrics
                        | Some h \<Rightarrow> metrics(''var_'' @ label @ ''_hist'' \<mapsto> VarMetric h));
            param_var = parametric_var norm_ppf returns conf position_value;
            metrics2 = (case param_var of
                          None \<Rightarrow> metrics1
                        | Some p \<Rightarrow> metrics1(''var_'' @ label @ ''_param'' \<mapsto> VarMetric p));
            es = expected_shortfall np_sum returns conf position_value;
            metrics3 = (case es of
                          None \<Rightarrow> metrics2
                        | Some e \<Rightarrow> metrics2(''es_'' @ label \<mapsto> EsMetric e))
        in Inr metrics3))"

definition calculate_all_metrics ::
  "(real list \<Rightarrow> fval) \<Rightarrow> (real \<Rightarrow> fval) \<Rightarrow> real list option \<Rightarrow> real
     \<Rightarrow> py_error + (string \<rightharpoonup> metric)" where
  "calculate_all_metrics np_sum norm_ppf returns position_value =
     for_each (metrics_for_confidence np_sum norm_ppf returns position_value) [0.95, 0.99] Map.empty"


section \<open>BacktestEngine\<close>

text \<open>
  \<^verbatim>\<open>basel_traffic_light\<close> returns a pair of a colour and a message.  The expected
  number of breaches is computed and never used.
\<close>

definition basel_traffic_light :: "int \<Rightarrow> int \<Rightarrow> real \<Rightarrow> string \<times> string" where
  "basel_traffic_light breaches total_days confidence_level =
     (let expected_breaches = real_of_int total_days * (1 - confidence_level) in
      if confidence_level = 0.95 then
        (if breaches \<le> 4 then (''GREEN'', ''Model is accurate'')
         else if breaches \<le> 9 then (''YELLOW'', ''Model needs attention'')
         else (''RED'', ''Model is inadequate''))
      else
        (if breaches \<le> 2 then (''GREEN'', ''Model is accurate'')
         else (''RED'', ''Model is inadequate'')))"


text \<open>
  The result dictionary of \<^verbatim>\<open>kupiec_test\<close>; the key \<^verbatim>\<open>interpretation\<close> is the field
  \<open>interpretation_msg\<close>.  The chi-square distribution function of scipy (one degree of
  freedom) is a parameter of the model.  The statistic is the Python int 0 in the
  degenerate case and a numpy double otherwise; the division of the two counts and the
  powers are Python's, which raise where numpy would return an infinity.
\<close>

record kupiec_result =
  lr_statistic :: fval
  critical_value :: real
  p_value :: fval
  reject_model :: bool
  interpretation_msg :: string

definition kupiec_test :: "(fval \<Rightarrow> fval) \<Rightarrow> int \<Rightarrow> int \<Rightarrow> real \<Rightarrow> py_error + kupiec_result" where
  "kupiec_test chi2_cdf breaches total_days confidence_level =
     (let expected_rate = 1 - confidence_level in
      bind_err (py_truediv breaches total_days) (\<lambda>observed_rate.
      bind_err
        (if breaches = 0 \<or> breaches = total_days then Inr (Fin 0)
         else
           bind_err (py_pow expected_rate breaches) (\<lambda>e1.
           bind_err (py_pow (1 - expected_rate) (total_days - breaches)) (\<lambda>e2.
           bind_err (py_pow observed_rate breaches) (\<lambda>o1.
           bind_err (py_pow (1 - observed_rate) (total_days - breaches)) (\<lambda>o2.
             Inr (fmul (Fin (- 2))
                    (fsub (np_log (Fin (e1 * e2))) (np_log (Fin (o1 * o2))))))))))
        (\<lambda>lr_stat.
           let crit = 3.841;
               p = fsub (Fin 1) (chi2_cdf lr_stat);
               reject = fgt lr_stat (Fin crit)
           in Inr \<lparr>lr_statistic = lr_stat, critical_value = crit, p_value = p,
                    reject_model = reject,
                    interpretation_msg = (if reject then ''Reject model'' else ''Accept model'')\<rparr>)))"

definition count_breaches :: "real list option \<Rightarrow> fval \<Rightarrow> int" where
  "count_breaches returns var_threshold =
     (case returns of
        None \<Rightarrow> 0
      | Some rs \<Rightarrow>
          if length rs = 0 then 0
          else let var_decimal = fdiv var_threshold (Fin 100)
               in int (length (filter (\<lambda>r. fless (Fin r) (fneg var_decimal)) rs)))"

text \<open>
  One entry of the backtest report (the dictionary keys carry the prefix \<open>report_\<close>),
  the body of the loop over the two confidence levels, and \<^verbatim>\<open>backtest_results\<close>.  Reading
  \<^verbatim>\<open>var_return\<close> from an entry that is not a VaR dictionary raises \<^verbatim>\<open>KeyError\<close>.
\<close>

record backtest_report =
  report_breaches :: int
  report_total_days :: int
  report_breach_rate :: real
  report_expected_rate :: real
  report_traffic_light :: string
  report_traffic_message :: string
  report_kupiec_test :: kupiec_result

definition backtest_for_confidence ::
  "(fval \<Rightarrow> fval) \<Rightarrow> real list \<Rightarrow> (string \<rightharpoonup> metric) \<Rightarrow> (string \<rightharpoonup> backtest_report) \<Rightarrow> real
     \<Rightarrow> py_error + (string \<rightharpoonup> backtest_report)" where
  "backtest_for_confidence chi2_cdf rs var_metrics results confidence =
     (let total_days = int (length rs);
          label = conf_label confidence;
          var_key = ''var_'' @ label @ ''_hist''
      in case var_metrics var_key of
           None \<Rightarrow> Inr results
         | Some entry \<Rightarrow>
             bind_err (case entry of VarMetric h \<Rightarrow> Inr (var_return h) | EsMetric e \<Rightarrow> Inl KeyError)
               (\<lambda>var_threshold.
                  let breaches = count_breaches (Some rs) var_threshold;
                      light = basel_traffic_light breaches total_days confidence
                  in bind_err (kupiec_test chi2_cdf breaches total_days confidence) (\<lambda>kupiec.
                     bind_err (py_truediv breaches total_days) (\<lambda>rate.
                       Inr (results(label \<mapsto>
                         \<lparr>report_breaches = breaches, report_total_days = total_days,
                          report_breach_rate = rate, report_expected_rate = 1 - confidence,
                          report_traffic_light = fst light, report_traffic_message = snd light,
                          report_kupiec_test = kupiec\<rparr>))))))"

definition backtest_results ::
  "(fval \<Rightarrow> fval) \<Rightarrow> real list option \<Rightarrow> (string \<rightharpoonup> metric) \<Rightarrow> real
     \<Rightarrow> py_error + (string \<rightharpoonup> backtest_report) option" where
  "backtest_results chi2_cdf returns var_metrics position_value =
     (case returns of
        None \<Rightarrow> Inr None
      | Some rs \<Rightarrow>
          if length rs < 30 then Inr None
          else bind_err (for_each (backtest_for_confidence chi2_cdf rs var_metrics) [0.95, 0.99] Map.empty)
                 (\<lambda>results. Inr (Some results)))"

text \<open>
  The sub-computations are unavailable when there is no series or fewer than 10 returns.
  A metrics mapping is well-formed for the backtest when what it holds under the two
  historical-VaR keys are VaR dictionaries.
\<close>

definition unavailable :: "real list option \<Rightarrow> bool" where
  "unavailable returns = (case returns of None \<Rightarrow> True | Some rs \<Rightarrow> length rs < 10)"

definition var_entries_ok :: "(string \<rightharpoonup> metric) \<Rightarrow> bool" where
  "var_entries_ok var_metrics =
     (\<forall>k \<in> {''var_95%_hist'', ''var_99%_hist''}.
        case var_metrics k of Some (EsMetric e) \<Rightarrow> False | _ \<Rightarrow> True)"


section \<open>StressTestEngine\<close>

text \<open>
  The catalog of scenarios: every entry has a display name (key \<^verbatim>\<open>name\<close>, field
  \<open>scenario_title\<close>, with the Greek sigma of the first one as its two UTF-8 bytes) and a
  \<^verbatim>\<open>nifty_shock\<close>; the correlation and the volatility multiplier are optional keys.
\<close>

record scenario =
  scenario_title :: string
  nifty_shock :: real
  equity_correlation :: "real option"
  vol_multiplier :: "real option"

definition scenarios :: "string \<rightharpoonup> scenario" where
  "scenarios =
     [''market_crash'' \<mapsto>
        \<lparr>scenario_title = ''Market Crash (-3'' @ [CHR 0xCF, CHR 0x83] @ '')'',
         nifty_shock = - 0.15, equity_correlation = Some 0.9, vol_multiplier = None\<rparr>,
      ''covid_style'' \<mapsto>
        \<lparr>scenario_title = ''COVID-style Crash'',
         nifty_shock = - 0.38, equity_correlation = Some 0.95, vol_multiplier = None\<rparr>,
      ''volatility_spike'' \<mapsto>
        \<lparr>scenario_title = ''Volatility Spike'',
         nifty_shock = - 0.10, equity_correlation = None, vol_multiplier = Some 2.5\<rparr>,
      ''2008_crisis'' \<mapsto>
        \<lparr>scenario_title = ''2008-style Crisis'',
         nifty_shock = - 0.52, equity_correlation = Some 0.98, vol_multiplier = None\<rparr>]"

text \<open>
  \<^verbatim>\<open>apply_scenario\<close> walks the items of the position dictionary (a list of pairs with
  distinct symbols), with the breakdown and the running total as the loop state.  The
  loss percentage divides by the position, which raises for a position of zero.  The
  third argument, \<^verbatim>\<open>returns_data\<close>, is never read.
\<close>

record asset_loss =
  position :: real
  loss :: real
  loss_pct :: real

record stress_result =
  scenario_name :: string
  total_loss :: real
  asset_breakdown :: "string \<rightharpoonup> asset_loss"

definition apply_scenario_asset ::
  "scenario \<Rightarrow> (string \<rightharpoonup> asset_loss) \<times> real \<Rightarrow> string \<times> real
     \<Rightarrow> py_error + ((string \<rightharpoonup> asset_loss) \<times> real)" where
  "apply_scenario_asset scenario acc item =
     (case acc of (results, tot) \<Rightarrow>
      case item of (symb, pos) \<Rightarrow>
        let asset_loss =
              (if str_contains ''^NSEI'' symb then pos * \<bar>nifty_shock scenario\<bar>
               else
                 let shock = (case equity_correlation scenario of
                                Some corr \<Rightarrow> nifty_shock scenario * corr
                              | None \<Rightarrow> nifty_shock scenario * 0.8)
                 in pos * \<bar>shock\<bar>)
        in if pos = 0 then Inl ZeroDivisionError
           else Inr (results(symb \<mapsto> \<lparr>position = pos, loss = asset_loss,
                                         loss_pct = asset_loss / pos * 100\<rparr>),
                     tot + asset_loss))"

definition apply_scenario ::
  "string \<Rightarrow> (string \<times> real) list \<Rightarrow> 'r \<Rightarrow> py_error + stress_result option" where
  "apply_scenario name position_values returns_data =
     (case scenarios name of
        None \<Rightarrow> Inr None
      | Some scenario \<Rightarrow>
          bind_err (for_each (apply_scenario_asset scenario) position_values (Map.empty, 0))
            (\<lambda>(results, tot).
               Inr (Some \<lparr>scenario_name = scenario_title scenario, total_loss = tot,
                          asset_breakdown = results\<rparr>)))"

text \<open>
  The loss the specification names for one instrument: the position times the magnitude of
  the index shock for a symbol that contains \<^verbatim>\<open>^NSEI\<close>, and times the magnitude of the
  shock scaled by the correlation factor (0.8 when the scenario has none) for any other.
\<close>

definition scenario_loss :: "scenario \<Rightarrow> string \<times> real \<Rightarrow> real" where
  "scenario_loss sc item =
     (case item of (symb, pos) \<Rightarrow>
        if str_contains ''^NSEI'' symb then pos * \<bar>nifty_shock sc\<bar>
        else pos * \<bar>nifty_shock sc * (case equity_correlation sc of Some corr \<Rightarrow> corr | None \<Rightarrow> 0.8)\<bar>)"


section \<open>AlertMonitor\<close>

text \<open>
  An alert dictionary (the key \<^verbatim>\<open>return\<close> is the field \<open>return_pct\<close>) and the state
  of the monitor: the bounded deque of alerts with its \<^verbatim>\<open>maxlen\<close>, a natural number,
  and the dictionary \<^verbatim>\<open>breach_count\<close>, which is created with the two keys \<^verbatim>\<open>95%\<close>
  and \<^verbatim>\<open>99%\<close> and never gets another one.  The clock reading \<^verbatim>\<open>datetime.now()\<close> is a
  parameter of \<^verbatim>\<open>check_breach\<close>.  In the summary the keys \<^verbatim>\<open>95_breaches\<close> and
  \<^verbatim>\<open>99_breaches\<close> are the fields \<open>n95_breaches\<close> and \<open>n99_breaches\<close>.
\<close>

record breach_alert =
  level :: string
  severity :: string
  symbol :: string
  return_pct :: fval
  threshold :: real
  excess :: fval
  timestamp :: nat

record alert_monitor =
  alerts :: "breach_alert list"
  maxlen :: nat
  breach_count_95 :: int
  breach_count_99 :: int

record alert_summary =
  total_alerts :: int
  n95_breaches :: int
  n99_breaches :: int
  recent :: "breach_alert list"

definition init_monitor :: "nat \<Rightarrow> alert_monitor" where
  "init_monitor max_alerts =
     \<lparr>alerts = [], maxlen = max_alerts, breach_count_95 = 0, breach_count_99 = 0\<rparr>"

text \<open>
  \<^verbatim>\<open>deque.append\<close> with a \<^verbatim>\<open>maxlen\<close>: the element goes to the right end, and when the
  deque is then longer than \<^verbatim>\<open>maxlen\<close> the leftmost element is dropped.
\<close>

definition deque_append :: "nat \<Rightarrow> 'a list \<Rightarrow> 'a \<Rightarrow> 'a list" where
  "deque_append cap d x = (let d' = d @ [x] in if cap < length d' then tl d' else d')"

fun append_alerts :: "alert_monitor \<Rightarrow> breach_alert list \<Rightarrow> alert_monitor" where
  "append_alerts m [] = m"
| "append_alerts m (breach # rest) =
     append_alerts (m\<lparr>alerts := deque_append (maxlen m) (alerts m) breach\<rparr>) rest"

definition check_breach ::
  "alert_monitor \<Rightarrow> real \<Rightarrow> real \<Rightarrow> real \<Rightarrow> string \<Rightarrow> nat \<Rightarrow> breach_alert list \<times> alert_monitor" where
  "check_breach m current_return var_95 var_99 symb now =
     (let abs_return = fabs (d_mul (Fin current_return) (Fin 100));
          (breaches, m') =
            (if d_gt abs_return (Fin var_99) then
               ([\<lparr>level = ''99%'', severity = ''CRITICAL'', symbol = symb,
                   return_pct = d_mul (Fin current_return) (Fin 100), threshold = var_99,
                   excess = d_sub abs_return (Fin var_99), timestamp = now\<rparr>],
                m\<lparr>breach_count_99 := breach_count_99 m + 1\<rparr>)
             else if d_gt abs_return (Fin var_95) then
               ([\<lparr>level = ''95%'', severity = ''WARNING'', symbol = symb,
                   return_pct = d_mul (Fin current_return) (Fin 100), threshold = var_95,
                   excess = d_sub abs_return (Fin var_95), timestamp = now\<rparr>],
                m\<lparr>breach_count_95 := breach_count_95 m + 1\<rparr>)
             else ([], m))
      in (breaches, append_alerts m' breaches))"

definition get_recent_alerts :: "alert_monitor \<Rightarrow> int \<Rightarrow> breach_alert list" where
  "get_recent_alerts m n = py_slice_last (alerts m) n"

definition get_alert_summary :: "alert_monitor \<Rightarrow> alert_summary" where
  "get_alert_summary m =
     \<lparr>total_alerts = int (length (alerts m)), n95_breaches = breach_count_95 m,
      n99_breaches = breach_count_99 m, recent = get_recent_alerts m 5\<rparr>"

definition reset_counts :: "alert_monitor \<Rightarrow> alert_monitor" where
  "reset_counts m = m\<lparr>breach_count_95 := 0, breach_count_99 := 0, alerts := []\<rparr>"

text \<open>
  The four operations of the monitor, and the effect of each on the state: the two
  queries assign to no attribute.
\<close>

datatype monitor_op =
    CheckBreach real real real string nat
  | GetRecentAlerts int
  | GetAlertSummary
  | ResetCounts

fun apply_monitor_op :: "alert_monitor \<Rightarrow> monitor_op \<Rightarrow> alert_monitor" where
  "apply_monitor_op m (CheckBreach r v95 v99 symb now) = snd (check_breach m r v95 v99 symb now)"
| "apply_monitor_op m (GetRecentAlerts n) = m"
| "apply_monitor_op m GetAlertSummary = m"
| "apply_monitor_op m ResetCounts = reset_counts m"

text \<open>
  A sequence of \<^verbatim>\<open>check_breach\<close> calls on one monitor: the alerts returned, in order,
  and the final state.  A call is breaching when its return exceeds one of the thresholds.
\<close>

type_synonym breach_call = "real \<times> real \<times> real \<times> string \<times> nat"

fun check_breach_calls :: "alert_monitor \<Rightarrow> breach_call list \<Rightarrow> breach_alert list \<times> alert_monitor" where
  "check_breach_calls m [] = ([], m)"
| "check_breach_calls m ((r, v95, v99, symb, now) # calls) =
     (let (out, m') = check_breach m r v95 v99 symb now;
          (outs, m'') = check_breach_calls m' calls
      in (out @ outs, m''))"

definition breaching :: "breach_call \<Rightarrow> bool" where
  "breaching c =
     (case c of (r, v95, v99, symb, now) \<Rightarrow>
        d_gt (fabs (d_mul (Fin r) (Fin 100))) (Fin v99)
        \<or> d_gt (fabs (d_mul (Fin r) (Fin 100))) (Fin v95))"

text \<open>
  What the specification calls the ring after eviction: the newest \<open>k\<close> entries of a
  log, oldest first.  \<open>count_level\<close> counts the alerts of one level in a log.
\<close>

definition newest :: "nat \<Rightarrow> 'a list \<Rightarrow> 'a list" where
  "newest k xs = drop (length xs - k) xs"

definition count_level :: "string \<Rightarrow> breach_alert list \<Rightarrow> int" where
  "count_level l as = int (length (filter (\<lambda>a. level a = l) as))"


section \<open>Error propagation\<close>

lemma bind_err_simps [simp]: "bind_err (Inl e) f = Inl e" "bind_err (Inr v) f = f v"
  by (simp_all add: bind_err_def)

lemma py_pow_nonneg: "0 \<le> e \<Longrightarrow> py_pow x e = Inr (x ^ nat e)"
  by (simp add: py_pow_def)

lemma bind_err_Inr [simp]: "bind_err r Inr = r"
  by (cases r) simp_all

lemma for_each_Nil: "for_each body [] = Inr"
  by (rule ext) simp

lemma for_each_two: "for_each body [a, b] s = bind_err (body s a) (\<lambda>s'. body s' b)"
  by (cases "body s a") (simp_all add: for_each_Nil)


section \<open>Rounding\<close>

lemma rhe_cases: "round_half_even y = \<lfloor>y\<rfloor> \<or> round_half_even y = \<lfloor>y\<rfloor> + 1"
  by (simp add: round_half_even_def Let_def)

lemma rhe_upper: "of_int (round_half_even y) \<le> y + 1/2"
  unfolding round_half_even_def Let_def
  by (auto; linarith)

lemma rhe_lower: "y - 1/2 \<le> of_int (round_half_even y)"
  unfolding round_half_even_def Let_def
  by (auto; linarith)

lemma rhe_of_int [simp]: "round_half_even (of_int n) = n"
  by (simp add: round_half_even_def)

lemma rhe_mono:
  assumes "y \<le> z"
  shows "round_half_even y \<le> round_half_even z"
proof (cases "\<lfloor>y\<rfloor> = \<lfloor>z\<rfloor>")
  case True
  with assms show ?thesis
    unfolding round_half_even_def Let_def by auto
next
  case False
  with assms have "\<lfloor>y\<rfloor> < \<lfloor>z\<rfloor>"
    by (simp add: floor_mono order.not_eq_order_implies_strict)
  moreover have "round_half_even y \<le> \<lfloor>y\<rfloor> + 1" "\<lfloor>z\<rfloor> \<le> round_half_even z"
    using rhe_cases [of y] rhe_cases [of z] by auto
  ultimately show ?thesis
    by linarith
qed

lemma rhe_minus: "round_half_even (- y) = - round_half_even y"
proof (cases "y = of_int \<lfloor>y\<rfloor>")
  case True
  then obtain n where "y = of_int n"
    by blast
  then show ?thesis
    using rhe_of_int [of "- n"] by simp
next
  case False
  then have lt: "of_int \<lfloor>y\<rfloor> < y"
    using of_int_floor_le [of y] by linarith
  have ub: "y < of_int \<lfloor>y\<rfloor> + 1"
    by linarith
  have f: "\<lfloor>- y\<rfloor> = - \<lfloor>y\<rfloor> - 1"
  proof (rule floor_unique)
    show "of_int (- \<lfloor>y\<rfloor> - 1) \<le> - y"
      by simp linarith
    show "- y < of_int (- \<lfloor>y\<rfloor> - 1) + 1"
      using lt by simp
  qed
  show ?thesis
    unfolding round_half_even_def Let_def f using lt ub by auto
qed

lemma quantum_pos: "0 < quantum x"
  by (simp add: quantum_def)

lemma quantum_minus [simp]: "quantum (- x) = quantum x"
  by (simp add: quantum_def expo_def)

lemma rnd_zero [simp]: "rnd 0 = 0"
  by (simp add: rnd_def)

lemma rnd_minus: "rnd (- x) = - rnd x"
  using rhe_minus [of "x / quantum x"] by (simp add: rnd_def)

lemma quantum_eq:
  assumes "2 powr of_int e \<le> \<bar>x\<bar>" and "\<bar>x\<bar> < 2 powr (of_int e + 1)" and "- 1022 \<le> e"
  shows "quantum x = 2 powr (of_int e - 52)"
proof -
  have "0 < \<bar>x\<bar>"
    using assms(1) by (smt (verit) powr_gt_zero)
  then have "\<lfloor>log 2 \<bar>x\<bar>\<rfloor> = e"
    using assms(1,2) by (simp add: floor_log_eq_powr_iff)
  with assms(3) show ?thesis
    by (simp add: quantum_def expo_def max_def)
qed

text \<open>
  Evaluation of \<open>rnd\<close> at a value whose multiple by \<open>2^k\<close> lies between \<open>2^52\<close> and
  \<open>2^53\<close>.
\<close>

lemma rnd_eval_frac:
  assumes "2 ^ 52 \<le> \<bar>x\<bar> * 2 ^ k" and "\<bar>x\<bar> * 2 ^ k < 2 ^ 53" and "k \<le> 1074"
  shows "rnd x = of_int (round_half_even (x * 2 ^ k)) / 2 ^ k"
proof -
  let ?e = "52 - int k"
  have p: "2 powr of_int ?e = 2 ^ 52 / (2 ^ k :: real)"
    by (simp add: powr_diff powr_realpow flip: powr_realpow)
  have p1: "2 powr (of_int ?e + 1) = 2 ^ 53 / (2 ^ k :: real)"
    by (simp add: powr_diff powr_add powr_realpow flip: powr_realpow)
  have "2 powr of_int ?e \<le> \<bar>x\<bar>" "\<bar>x\<bar> < 2 powr (of_int ?e + 1)"
    unfolding p p1 using assms(1,2) by (simp_all add: field_simps)
  moreover have "- 1022 \<le> ?e"
    using assms(3) by simp
  ultimately have "quantum x = 2 powr (of_int ?e - 52)"
    by (rule quantum_eq)
  also have "\<dots> = 1 / 2 ^ k"
    by (simp add: powr_minus powr_realpow field_simps flip: powr_realpow)
  finally have q: "quantum x = 1 / 2 ^ k" .
  have "x \<noteq> 0"
    using assms(1) by auto
  then show ?thesis
    by (simp add: rnd_def q)
qed

lemma rnd_evalI:
  assumes "2 ^ 52 \<le> \<bar>x\<bar> * 2 ^ k" and "\<bar>x\<bar> * 2 ^ k < 2 ^ 53" and "k \<le> 1074"
    and "of_int (round_half_even (x * 2 ^ k)) / 2 ^ k = y"
  shows "rnd x = y"
  using rnd_eval_frac [OF assms(1-3)] assms(4) by simp

lemma quantum_expo: "quantum x = 2 powr (of_int (expo x) - 52)"
  by (simp add: quantum_def)

lemma expo_upper:
  assumes "0 < x"
  shows "x < 2 powr (of_int (expo x) + 1)"
proof -
  have "log 2 x < of_int \<lfloor>log 2 x\<rfloor> + 1"
    by linarith
  also have "\<dots> \<le> of_int (expo x) + 1"
    using assms by (simp add: expo_def)
  finally have "2 powr log 2 x < 2 powr (of_int (expo x) + 1)"
    by simp
  with assms show ?thesis
    by simp
qed

lemma expo_lower:
  assumes "0 < x" and "- 1022 < expo x"
  shows "2 powr of_int (expo x) \<le> x"
proof -
  from assms have "expo x = \<lfloor>log 2 x\<rfloor>"
    by (simp add: expo_def max_def split: if_splits)
  then have "of_int (expo x) \<le> log 2 x"
    by simp
  then have "2 powr of_int (expo x) \<le> 2 powr log 2 x"
    by simp
  with assms(1) show ?thesis
    by simp
qed

lemma expo_mono:
  assumes "0 < x" and "x \<le> y"
  shows "expo x \<le> expo y"
proof -
  have "log 2 x \<le> log 2 y"
    using assms by simp
  then have "\<lfloor>log 2 x\<rfloor> \<le> \<lfloor>log 2 y\<rfloor>"
    by (rule floor_mono)
  with assms show ?thesis
    by (simp add: expo_def)
qed

lemma rnd_le_next_power:
  assumes "0 < x"
  shows "rnd x \<le> 2 powr (of_int (expo x) + 1)"
proof -
  have "x / quantum x < 2 powr (of_int (expo x) + 1) / quantum x"
    using expo_upper [OF assms] quantum_pos [of x] by (simp add: divide_strict_right_mono)
  also have "\<dots> = 2 powr 53"
    by (simp add: quantum_expo flip: powr_diff)
  also have "\<dots> = of_int (2 ^ 53)"
    by (simp add: powr_numeral)
  finally have "round_half_even (x / quantum x) \<le> round_half_even (of_int (2 ^ 53))"
    by (intro rhe_mono) simp
  then have "real_of_int (round_half_even (x / quantum x)) \<le> 2 ^ 53"
    unfolding rhe_of_int by (metis of_int_le_iff of_int_numeral of_int_power)
  then have "rnd x \<le> 2 ^ 53 * quantum x"
    using assms quantum_pos [of x] by (simp add: rnd_def)
  also have "\<dots> = 2 powr 53 * quantum x"
    by (simp add: powr_numeral)
  also have "\<dots> = 2 powr (of_int (expo x) + 1)"
    by (simp only: quantum_expo flip: powr_add) (simp add: add.commute)
  finally show ?thesis .
qed

lemma rnd_ge_power:
  assumes "0 < x" and "2 powr of_int (expo x) \<le> x"
  shows "2 powr of_int (expo x) \<le> rnd x"
proof -
  have "2 powr of_int (expo x) / quantum x \<le> x / quantum x"
    using assms(2) quantum_pos [of x] by (simp add: divide_right_mono)
  moreover have "2 powr of_int (expo x) / quantum x = 2 powr 52"
    by (simp add: quantum_expo flip: powr_diff)
  moreover have "(2::real) powr 52 = of_int (2 ^ 52)"
    by (simp add: powr_numeral)
  ultimately have "round_half_even (of_int (2 ^ 52)) \<le> round_half_even (x / quantum x)"
    by (intro rhe_mono) simp
  then have "2 ^ 52 \<le> real_of_int (round_half_even (x / quantum x))"
    unfolding rhe_of_int by (metis of_int_le_iff of_int_numeral of_int_power)
  then have "2 ^ 52 * quantum x \<le> rnd x"
    using assms(1) quantum_pos [of x] by (simp add: rnd_def)
  moreover have "2 ^ 52 * quantum x = 2 powr 52 * quantum x"
    by (simp add: powr_numeral)
  moreover have "2 powr 52 * quantum x = 2 powr of_int (expo x)"
    by (simp only: quantum_expo flip: powr_add) simp
  ultimately show ?thesis
    by simp
qed

lemma rnd_mono_pos:
  assumes "0 < x" and "x \<le> y"
  shows "rnd x \<le> rnd y"
proof (cases "expo x = expo y")
  case True
  then have q: "quantum x = quantum y"
    by (simp add: quantum_expo)
  have "x / quantum y \<le> y / quantum y"
    using assms(2) quantum_pos [of y] by (simp add: divide_right_mono)
  then have "round_half_even (x / quantum y) \<le> round_half_even (y / quantum y)"
    by (rule rhe_mono)
  then have "of_int (round_half_even (x / quantum y)) * quantum y
      \<le> of_int (round_half_even (y / quantum y)) * quantum y"
    using quantum_pos [of y] by simp
  with assms show ?thesis
    by (simp add: rnd_def q)
next
  case False
  with expo_mono [OF assms] have lt: "expo x < expo y"
    by simp
  have y: "0 < y"
    using assms by simp
  have "- 1022 \<le> expo x"
    by (simp add: expo_def)
  with lt have "- 1022 < expo y"
    by simp
  from expo_lower [OF y this] have "2 powr of_int (expo y) \<le> rnd y"
    by (rule rnd_ge_power [OF y])
  moreover have "(2::real) powr (of_int (expo x) + 1) \<le> 2 powr of_int (expo y)"
    using lt by simp
  ultimately show ?thesis
    using rnd_le_next_power [OF assms(1)] by linarith
qed

lemma rnd_nonneg:
  assumes "0 \<le> x"
  shows "0 \<le> rnd x"
proof (cases "x = 0")
  case False
  with assms have "0 \<le> x / quantum x"
    using quantum_pos [of x] by simp
  then have "round_half_even 0 \<le> round_half_even (x / quantum x)"
    by (rule rhe_mono)
  then have "0 \<le> round_half_even (x / quantum x)"
    using rhe_of_int [of 0] by simp
  with False show ?thesis
    using quantum_pos [of x] by (simp add: rnd_def)
qed simp

lemma rnd_mono:
  assumes "x \<le> y"
  shows "rnd x \<le> rnd y"
proof -
  consider "0 < x" | "x \<le> 0" "0 \<le> y" | "y < 0"
    using assms by linarith
  then show ?thesis
  proof cases
    case 1
    then show ?thesis
      using assms by (rule rnd_mono_pos)
  next
    case 2
    have "0 \<le> rnd (- x)"
      using 2(1) by (intro rnd_nonneg) simp
    then have "rnd x \<le> 0"
      by (simp add: rnd_minus)
    with rnd_nonneg [OF 2(2)] show ?thesis
      by simp
  next
    case 3
    then have "0 < - y" "- y \<le> - x"
      using assms by simp_all
    then have "rnd (- y) \<le> rnd (- x)"
      by (rule rnd_mono_pos)
    then show ?thesis
      by (simp add: rnd_minus)
  qed
qed

lemma rnd_abs: "rnd \<bar>x\<bar> = \<bar>rnd x\<bar>"
proof (cases "0 \<le> x")
  case True
  with rnd_nonneg [OF True] show ?thesis
    by simp
next
  case False
  then have "0 \<le> rnd (- x)"
    by (intro rnd_nonneg) simp
  with False show ?thesis
    by (simp add: rnd_minus)
qed

lemma rnd_upper:
  assumes "0 \<le> x"
  shows "rnd x \<le> x * (1 + 1 / 2 ^ 53) + 1 / 2 ^ 1075"
proof (cases "x = 0")
  case False
  with assms have x: "0 < x"
    by simp
  have "rnd x \<le> (x / quantum x + 1/2) * quantum x"
    using rhe_upper [of "x / quantum x"] quantum_pos [of x] False by (simp add: rnd_def)
  also have "\<dots> = x + quantum x / 2"
    using quantum_pos [of x] by (simp add: field_simps)
  finally have a: "rnd x \<le> x + quantum x / 2" .
  have "quantum x / 2 \<le> x / 2 ^ 53 + 1 / 2 ^ 1075"
  proof (cases "- 1022 < expo x")
    case True
    from expo_lower [OF x True] have "2 powr of_int (expo x) * 2 powr (- 52) \<le> x * 2 powr (- 52)"
      by simp
    then have "quantum x \<le> x * 2 powr (- 52)"
      by (simp add: quantum_expo powr_diff powr_minus field_simps)
    also have "\<dots> = x / 2 ^ 52"
      by (simp add: powr_minus powr_numeral field_simps)
    finally have "quantum x / 2 \<le> x / 2 ^ 53"
      by simp
    then show ?thesis
      by (smt (verit) zero_less_power divide_pos_pos zero_less_one zero_less_numeral)
  next
    case False
    moreover have "- 1022 \<le> expo x"
      by (simp add: expo_def)
    ultimately have "expo x = - 1022"
      by simp
    then have "quantum x = 2 powr (- 1074)"
      by (simp add: quantum_expo)
    also have "\<dots> = 1 / 2 ^ 1074"
      by (simp add: powr_minus powr_numeral field_simps)
    finally have "quantum x / 2 = 1 / 2 ^ 1075"
      by simp
    with x show ?thesis
      by simp
  qed
  with a show ?thesis
    by (simp add: field_simps)
qed simp

text \<open>
  A double is its own rounding, so an operation that reads an operand which is already a
  double reads it unchanged.
\<close>

lemma expo_eqI:
  assumes "0 < r" and "2 powr of_int e \<le> r \<or> e = - 1022" and "r < 2 powr (of_int e + 1)"
    and "- 1022 \<le> e"
  shows "expo r = e"
proof -
  have "log 2 r < of_int e + 1"
    using assms(1,3) by (simp add: log_less_iff)
  then have "log 2 r < of_int (e + 1)"
    by simp
  then have up: "\<lfloor>log 2 r\<rfloor> < e + 1"
    by (simp only: floor_less_iff)
  from assms(2) show ?thesis
  proof
    assume "2 powr of_int e \<le> r"
    then have "of_int e \<le> log 2 r"
      using assms(1) by (simp add: le_log_iff)
    then have "e \<le> \<lfloor>log 2 r\<rfloor>"
      by (simp only: le_floor_iff)
    with up assms(1,4) show ?thesis
      by (simp add: expo_def)
  next
    assume "e = - 1022"
    with up assms(1) show ?thesis
      by (simp add: expo_def)
  qed
qed

lemma expo_ge: "- 1022 \<le> expo x"
  by (simp add: expo_def)

lemma rnd_idem_pos:
  assumes "0 < x"
  shows "rnd (rnd x) = rnd x"
proof (cases "rnd x = 0")
  case True
  then show ?thesis
    by simp
next
  case False
  let ?e = "expo x"
  let ?m = "round_half_even (x / quantum x)"
  have r: "rnd x = of_int ?m * quantum x"
    using assms by (simp add: rnd_def)
  have pos: "0 < rnd x"
    using False rnd_nonneg [of x] assms by simp
  have le: "rnd x \<le> 2 powr (of_int ?e + 1)"
    by (rule rnd_le_next_power [OF assms])
  show ?thesis
  proof (cases "rnd x = 2 powr (of_int ?e + 1)")
    case True
    have "expo (rnd x) = ?e + 1"
    proof (rule expo_eqI [OF pos])
      show "2 powr of_int (?e + 1) \<le> rnd x \<or> ?e + 1 = - 1022"
        using True by simp
      show "rnd x < 2 powr (of_int (?e + 1) + 1)"
        unfolding True by simp
      show "- 1022 \<le> ?e + 1"
        using expo_ge [of x] by simp
    qed
    then have q: "quantum (rnd x) = 2 powr (of_int ?e - 51)"
      by (simp add: quantum_expo)
    have "rnd x / quantum (rnd x) = rnd x / 2 powr (of_int ?e - 51)"
      by (simp only: q)
    also have "\<dots> = 2 powr (of_int ?e + 1) / 2 powr (of_int ?e - 51)"
      by (simp only: True)
    also have "\<dots> = 2 powr 52"
      by (simp flip: powr_diff)
    also have "\<dots> = of_int (2 ^ 52)"
      by (simp add: powr_realpow [symmetric])
    finally have "round_half_even (rnd x / quantum (rnd x)) = 2 ^ 52"
      by (simp only: rhe_of_int)
    then have "rnd (rnd x) = 2 ^ 52 * 2 powr (of_int ?e - 51)"
      using False by (simp add: rnd_def [of "rnd x"] q)
    also have "\<dots> = 2 powr 52 * 2 powr (of_int ?e - 51)"
      by (simp add: powr_realpow [symmetric])
    also have "\<dots> = 2 powr (of_int ?e + 1)"
      by (simp only: flip: powr_add) (simp add: add.commute)
    finally show ?thesis
      using True by simp
  next
    case ne: False
    with le have lt: "rnd x < 2 powr (of_int ?e + 1)"
      by simp
    have "expo (rnd x) = ?e"
    proof (rule expo_eqI [OF pos _ lt expo_ge])
      show "2 powr of_int ?e \<le> rnd x \<or> ?e = - 1022"
      proof (cases "?e = - 1022")
        case False
        then have "- 1022 < ?e"
          using expo_ge [of x] by linarith
        from rnd_ge_power [OF assms expo_lower [OF assms this]] show ?thesis
          by simp
      qed simp
    qed
    then have q: "quantum (rnd x) = quantum x"
      by (simp add: quantum_expo)
    have "rnd x / quantum x = of_int ?m"
      unfolding r using quantum_pos [of x] by simp
    then have m: "round_half_even (rnd x / quantum x) = ?m"
      by (simp only: rhe_of_int)
    have "rnd (rnd x) = of_int (round_half_even (rnd x / quantum (rnd x))) * quantum (rnd x)"
      using False by (simp add: rnd_def [of "rnd x"])
    also have "\<dots> = of_int ?m * quantum x"
      by (simp only: q m)
    also have "\<dots> = rnd x"
      by (simp only: r)
    finally show ?thesis .
  qed
qed

lemma rnd_idem: "rnd (rnd x) = rnd x"
proof -
  consider "0 < x" | "x = 0" | "x < 0"
    by linarith
  then show ?thesis
  proof cases
    case 1
    then show ?thesis
      by (rule rnd_idem_pos)
  next
    case 2
    then show ?thesis
      by simp
  next
    case 3
    then have "rnd (rnd (- x)) = rnd (- x)"
      by (intro rnd_idem_pos) simp
    then show ?thesis
      by (simp add: rnd_minus)
  qed
qed

section \<open>Double operations\<close>

lemma fround_Fin:
  assumes "rnd x = y" and "\<bar>y\<bar> < 2 ^ 1024"
  shows "fround (Fin x) = Fin y"
  using assms by (simp add: fround_def)

lemma fround_idem: "fround (fround v) = fround v"
proof (cases v)
  case (Fin x)
  show ?thesis
  proof (cases "2 ^ 1024 \<le> \<bar>rnd x\<bar>")
    case True
    then show ?thesis
      by (simp add: Fin fround_def inf_of_sign_def)
  next
    case False
    then show ?thesis
      by (simp add: Fin fround_def rnd_idem)
  qed
qed (simp_all add: fround_def)

lemma d_add_eval:
  assumes "rnd a = a'" and "rnd b = b'" and "rnd (a' + b') = c"
    and "\<bar>a'\<bar> < 2 ^ 1024" and "\<bar>b'\<bar> < 2 ^ 1024" and "\<bar>c\<bar> < 2 ^ 1024"
  shows "d_add (Fin a) (Fin b) = Fin c"
  unfolding d_add_def fround_Fin [OF assms(1,4)] fround_Fin [OF assms(2,5)] fadd.simps
  by (rule fround_Fin [OF assms(3,6)])

lemma d_sub_eval:
  assumes "rnd a = a'" and "rnd b = b'" and "rnd (a' - b') = c"
    and "\<bar>a'\<bar> < 2 ^ 1024" and "\<bar>b'\<bar> < 2 ^ 1024" and "\<bar>c\<bar> < 2 ^ 1024"
  shows "d_sub (Fin a) (Fin b) = Fin c"
proof -
  have "fsub (Fin a') (Fin b') = Fin (a' - b')"
    by (simp add: fsub_def)
  then show ?thesis
    unfolding d_sub_def fround_Fin [OF assms(1,4)] fround_Fin [OF assms(2,5)]
    by (simp add: fround_Fin [OF assms(3,6)])
qed

lemma d_mul_eval:
  assumes "rnd a = a'" and "rnd b = b'" and "rnd (a' * b') = c"
    and "\<bar>a'\<bar> < 2 ^ 1024" and "\<bar>b'\<bar> < 2 ^ 1024" and "\<bar>c\<bar> < 2 ^ 1024"
  shows "d_mul (Fin a) (Fin b) = Fin c"
  unfolding d_mul_def fround_Fin [OF assms(1,4)] fround_Fin [OF assms(2,5)] fmul.simps
  by (rule fround_Fin [OF assms(3,6)])

lemma d_div_eval:
  assumes "rnd a = a'" and "rnd b = b'" and "rnd (a' / b') = c" and "b' \<noteq> 0"
    and "\<bar>a'\<bar> < 2 ^ 1024" and "\<bar>b'\<bar> < 2 ^ 1024" and "\<bar>c\<bar> < 2 ^ 1024"
  shows "d_div (Fin a) (Fin b) = Fin c"
proof -
  have "fdiv (Fin a') (Fin b') = Fin (a' / b')"
    using assms(4) by simp
  then show ?thesis
    unfolding d_div_def fround_Fin [OF assms(1,5)] fround_Fin [OF assms(2,6)]
    by (simp add: fround_Fin [OF assms(3,7)])
qed

lemma d_gt_eval:
  assumes "rnd a = a'" and "rnd b = b'" and "\<bar>a'\<bar> < 2 ^ 1024" and "\<bar>b'\<bar> < 2 ^ 1024"
  shows "d_gt (Fin a) (Fin b) \<longleftrightarrow> b' < a'"
  unfolding d_gt_def fround_Fin [OF assms(1,3)] fround_Fin [OF assms(2,4)]
  by (simp add: fgt_def)

lemma r_sub_eval:
  assumes "rnd a = a'" and "rnd b = b'" and "rnd (a' - b') = c"
  shows "r_sub a b = c"
  using assms by (simp add: r_sub_def)

lemma r_mul_eval:
  assumes "rnd a = a'" and "rnd b = b'" and "rnd (a' * b') = c"
  shows "r_mul a b = c"
  using assms by (simp add: r_mul_def)

text \<open>Rounding commutes with the magnitude, and the magnitude with the product.\<close>

lemma fround_fabs: "fround (fabs v) = fabs (fround v)"
proof (cases v)
  case (Fin x)
  have "x \<noteq> 0" if "2 ^ 1024 \<le> \<bar>rnd x\<bar>"
    using that by auto
  then show ?thesis
    using Fin by (auto simp add: fround_def rnd_abs inf_of_sign_def)
qed (simp_all add: fround_def)

lemma fabs_fmul: "fabs (fmul a b) = fmul (fabs a) (fabs b)"
  by (cases a; cases b) (auto simp add: inf_of_sign_def abs_mult)

lemma fabs_fround_nonneg:
  assumes "0 \<le> v"
  shows "fabs (fround (Fin v)) = fround (Fin v)"
  using assms rnd_nonneg [OF assms] by (auto simp add: fround_def inf_of_sign_def)

lemma d_mul_fabs:
  assumes "0 \<le> v"
  shows "fabs (d_mul (Fin s) (Fin v)) = d_mul (fabs (Fin s)) (Fin v)"
proof -
  have "d_mul (fabs (Fin s)) (Fin v)
      = fround (fmul (fabs (fround (Fin s))) (fabs (fround (Fin v))))"
    unfolding d_mul_def fround_fabs fabs_fround_nonneg [OF assms] ..
  also have "\<dots> = fabs (d_mul (Fin s) (Fin v))"
    unfolding d_mul_def by (simp only: fround_fabs [symmetric] fabs_fmul)
  finally show ?thesis
    by simp
qed





text \<open>Scaling a magnitude to a percentage keeps the order.\<close>

lemma rnd_one: "rnd 1 = 1"
  by (rule rnd_evalI [where k = 52]) (simp_all add: round_half_even_def)

lemma rnd_100: "rnd 100 = 100"
  by (rule rnd_evalI [where k = 46]) (simp_all add: round_half_even_def)



section \<open>The doubles of the examples\<close>

lemma rnd_at_1: "rnd 0.12 = 1080863910568919 / 9007199254740992"
  by (rule rnd_evalI [where k = 56]) (simp_all add: round_half_even_def)

lemma rnd_at_2: "rnd ((1080863910568919 / 9007199254740992) * 100) = 12"
  by (rule rnd_evalI [where k = 49]) (simp_all add: round_half_even_def)

lemma pct_012: "d_mul (Fin 0.12) (Fin 100) = Fin 12"
  by (rule d_mul_eval [OF rnd_at_1 rnd_100 rnd_at_2]) simp_all

lemma rnd_at_3: "rnd (- 0.2) = - (3602879701896397 / 18014398509481984)"
  by (rule rnd_evalI [where k = 55]) (simp_all add: round_half_even_def)

lemma rnd_at_4: "rnd ((- (3602879701896397 / 18014398509481984)) * 100) = - 20"
  by (rule rnd_evalI [where k = 48]) (simp_all add: round_half_even_def)

lemma pct_m02: "d_mul (Fin (- 0.2)) (Fin 100) = Fin (- 20)"
  by (rule d_mul_eval [OF rnd_at_3 rnd_100 rnd_at_4]) simp_all

lemma rnd_at_5: "rnd 0.05 = 3602879701896397 / 72057594037927936"
  by (rule rnd_evalI [where k = 57]) (simp_all add: round_half_even_def)

lemma rnd_at_6: "rnd ((3602879701896397 / 72057594037927936) * 100) = 5"
  by (rule rnd_evalI [where k = 50]) (simp_all add: round_half_even_def)

lemma pct_005: "d_mul (Fin 0.05) (Fin 100) = Fin 5"
  by (rule d_mul_eval [OF rnd_at_5 rnd_100 rnd_at_6]) simp_all

lemma rnd_at_7: "rnd 0.14 = 1261007895663739 / 9007199254740992"
  by (rule rnd_evalI [where k = 55]) (simp_all add: round_half_even_def)

lemma rnd_at_8: "rnd ((1261007895663739 / 9007199254740992) * 100) = 7881299347898369 / 562949953421312"
  by (rule rnd_evalI [where k = 49]) (simp_all add: round_half_even_def)

lemma pct_014: "d_mul (Fin 0.14) (Fin 100) = Fin (7881299347898369 / 562949953421312)"
  by (rule d_mul_eval [OF rnd_at_7 rnd_100 rnd_at_8]) simp_all

lemma rnd_at_9: "rnd 12 = 12"
  by (rule rnd_evalI [where k = 49]) (simp_all add: round_half_even_def)

lemma rnd_at_10: "rnd 15 = 15"
  by (rule rnd_evalI [where k = 49]) (simp_all add: round_half_even_def)

lemma gt_12_15: "\<not> d_gt (Fin 12) (Fin 15)"
  using d_gt_eval [OF rnd_at_9 rnd_at_10] by simp

lemma rnd_at_11: "rnd 10 = 10"
  by (rule rnd_evalI [where k = 49]) (simp_all add: round_half_even_def)

lemma gt_12_10: "d_gt (Fin 12) (Fin 10)"
  using d_gt_eval [OF rnd_at_9 rnd_at_11] by simp

lemma rnd_at_12: "rnd 20 = 20"
  by (rule rnd_evalI [where k = 48]) (simp_all add: round_half_even_def)

lemma gt_20_15: "d_gt (Fin 20) (Fin 15)"
  using d_gt_eval [OF rnd_at_12 rnd_at_10] by simp

lemma rnd_at_13: "rnd 5 = 5"
  by (rule rnd_evalI [where k = 50]) (simp_all add: round_half_even_def)

lemma gt_5_15: "\<not> d_gt (Fin 5) (Fin 15)"
  using d_gt_eval [OF rnd_at_13 rnd_at_10] by simp

lemma gt_5_10: "\<not> d_gt (Fin 5) (Fin 10)"
  using d_gt_eval [OF rnd_at_13 rnd_at_11] by simp

lemma rnd_at_14: "rnd (7881299347898369 / 562949953421312) = 7881299347898369 / 562949953421312"
  by (rule rnd_evalI [where k = 49]) (simp_all add: round_half_even_def)

lemma rnd_at_15: "rnd 14 = 14"
  by (rule rnd_evalI [where k = 49]) (simp_all add: round_half_even_def)

lemma gt_014_14: "d_gt (Fin (7881299347898369 / 562949953421312)) (Fin 14)"
  using d_gt_eval [OF rnd_at_14 rnd_at_15] by simp

lemma rnd_at_16: "rnd (12 - 10) = 2"
  by (rule rnd_evalI [where k = 51]) (simp_all add: round_half_even_def)

lemma excess_12_10: "d_sub (Fin 12) (Fin 10) = Fin 2"
  by (rule d_sub_eval [OF rnd_at_9 rnd_at_11 rnd_at_16]) simp_all

lemma rnd_at_17: "rnd (20 - 15) = 5"
  by (rule rnd_evalI [where k = 50]) (simp_all add: round_half_even_def)

lemma excess_20_15: "d_sub (Fin 20) (Fin 15) = Fin 5"
  by (rule d_sub_eval [OF rnd_at_12 rnd_at_10 rnd_at_17]) simp_all

lemma rnd_at_18: "rnd ((7881299347898369 / 562949953421312) - 14) = 1 / 562949953421312"
  by (rule rnd_evalI [where k = 101]) (simp_all add: round_half_even_def)

lemma excess_014_14: "d_sub (Fin (7881299347898369 / 562949953421312)) (Fin 14) = Fin (1 / 562949953421312)"
  by (rule d_sub_eval [OF rnd_at_14 rnd_at_15 rnd_at_18]) simp_all

lemma rnd_at_19: "rnd 0.95 = 4278419646001971 / 4503599627370496"
  by (rule rnd_evalI [where k = 53]) (simp_all add: round_half_even_def)

lemma rnd_at_20: "rnd (1 - (4278419646001971 / 4503599627370496)) = 225179981368525 / 4503599627370496"
  by (rule rnd_evalI [where k = 57]) (simp_all add: round_half_even_def)

lemma one_minus_095: "r_sub 1 0.95 = 225179981368525 / 4503599627370496"
  by (rule r_sub_eval [OF rnd_one rnd_at_19 rnd_at_20])

lemma rnd_at_21: "rnd (225179981368525 / 4503599627370496) = 225179981368525 / 4503599627370496"
  by (rule rnd_evalI [where k = 57]) (simp_all add: round_half_even_def)

lemma rnd_at_22: "rnd ((225179981368525 / 4503599627370496) * 10) = 1125899906842625 / 2251799813685248"
  by (rule rnd_evalI [where k = 53]) (simp_all add: round_half_even_def)

lemma index_095_10: "r_mul (225179981368525 / 4503599627370496) 10 = 1125899906842625 / 2251799813685248"
  by (rule r_mul_eval [OF rnd_at_21 rnd_at_11 rnd_at_22])



lemma rnd_at_24: "rnd 0.9 = 8106479329266893 / 9007199254740992"
  by (rule rnd_evalI [where k = 53]) (simp_all add: round_half_even_def)

lemma rnd_at_25: "rnd (1 - (8106479329266893 / 9007199254740992)) = 900719925474099 / 9007199254740992"
  by (rule rnd_evalI [where k = 56]) (simp_all add: round_half_even_def)

lemma one_minus_09: "r_sub 1 0.9 = 900719925474099 / 9007199254740992"
  by (rule r_sub_eval [OF rnd_one rnd_at_24 rnd_at_25])

lemma rnd_at_26: "rnd (900719925474099 / 9007199254740992) = 900719925474099 / 9007199254740992"
  by (rule rnd_evalI [where k = 56]) (simp_all add: round_half_even_def)

lemma rnd_at_27: "rnd ((900719925474099 / 9007199254740992) * 10) = 4503599627370495 / 4503599627370496"
  by (rule rnd_evalI [where k = 53]) (simp_all add: round_half_even_def)

lemma index_09_10: "r_mul (900719925474099 / 9007199254740992) 10 = 4503599627370495 / 4503599627370496"
  by (rule r_mul_eval [OF rnd_at_26 rnd_at_11 rnd_at_27])

lemma rnd_at_28: "rnd 0.75 = 3 / 4"
  by (rule rnd_evalI [where k = 53]) (simp_all add: round_half_even_def)

lemma rnd_at_29: "rnd (1 - (3 / 4)) = 1 / 4"
  by (rule rnd_evalI [where k = 54]) (simp_all add: round_half_even_def)

lemma one_minus_075: "r_sub 1 0.75 = 1 / 4"
  by (rule r_sub_eval [OF rnd_one rnd_at_28 rnd_at_29])

lemma rnd_at_30: "rnd (1 / 4) = 1 / 4"
  by (rule rnd_evalI [where k = 54]) (simp_all add: round_half_even_def)

lemma rnd_at_31: "rnd ((1 / 4) * 10) = 5 / 2"
  by (rule rnd_evalI [where k = 51]) (simp_all add: round_half_even_def)

lemma index_075_10: "r_mul (1 / 4) 10 = 5 / 2"
  by (rule r_mul_eval [OF rnd_at_30 rnd_at_11 rnd_at_31])

lemma rnd_at_32: "rnd 0.02 = 5764607523034235 / 288230376151711744"
  by (rule rnd_evalI [where k = 58]) (simp_all add: round_half_even_def)

lemma rnd_at_33: "rnd ((5764607523034235 / 288230376151711744) * 100) = 2"
  by (rule rnd_evalI [where k = 51]) (simp_all add: round_half_even_def)

lemma pct_002: "d_mul (Fin 0.02) (Fin 100) = Fin 2"
  by (rule d_mul_eval [OF rnd_at_32 rnd_100 rnd_at_33]) simp_all

lemma rnd_at_34: "rnd (- 0.02) = - (5764607523034235 / 288230376151711744)"
  by (rule rnd_evalI [where k = 58]) (simp_all add: round_half_even_def)

lemma rnd_at_35: "rnd 1000000 = 1000000"
  by (rule rnd_evalI [where k = 33]) (simp_all add: round_half_even_def)

lemma rnd_at_36: "rnd ((- (5764607523034235 / 288230376151711744)) * 1000000) = - 20000"
  by (rule rnd_evalI [where k = 38]) (simp_all add: round_half_even_def)

lemma dollar_m002: "d_mul (Fin (- 0.02)) (Fin 1000000) = Fin (- 20000)"
  by (rule d_mul_eval [OF rnd_at_34 rnd_at_35 rnd_at_36]) simp_all

lemma rnd_at_37: "rnd (- 1000000) = - 1000000"
  by (rule rnd_evalI [where k = 33]) (simp_all add: round_half_even_def)

lemma rnd_at_38: "rnd ((- (5764607523034235 / 288230376151711744)) * (- 1000000)) = 20000"
  by (rule rnd_evalI [where k = 38]) (simp_all add: round_half_even_def)

lemma dollar_m002_short: "d_mul (Fin (- 0.02)) (Fin (- 1000000)) = Fin 20000"
  by (rule d_mul_eval [OF rnd_at_34 rnd_at_37 rnd_at_38]) simp_all

lemma rnd_at_39: "rnd ((5764607523034235 / 288230376151711744) * (- 1000000)) = - 20000"
  by (rule rnd_evalI [where k = 38]) (simp_all add: round_half_even_def)

lemma dollar_002_short: "d_mul (Fin 0.02) (Fin (- 1000000)) = Fin (- 20000)"
  by (rule d_mul_eval [OF rnd_at_32 rnd_at_37 rnd_at_39]) simp_all






lemma rnd_at_43: "rnd 0.01 = 5764607523034235 / 576460752303423488"
  by (rule rnd_evalI [where k = 59]) (simp_all add: round_half_even_def)

lemma rnd_at_44: "rnd ((5764607523034235 / 576460752303423488) * 100) = 1"
  by (rule rnd_evalI [where k = 52]) (simp_all add: round_half_even_def)

lemma pct_001: "d_mul (Fin 0.01) (Fin 100) = Fin 1"
  by (rule d_mul_eval [OF rnd_at_43 rnd_100 rnd_at_44]) simp_all

lemma rnd_at_45: "rnd (- 0.01) = - (5764607523034235 / 576460752303423488)"
  by (rule rnd_evalI [where k = 59]) (simp_all add: round_half_even_def)

lemma rnd_at_46: "rnd ((- (5764607523034235 / 576460752303423488)) * 1000000) = - 10000"
  by (rule rnd_evalI [where k = 39]) (simp_all add: round_half_even_def)

lemma dollar_m001: "d_mul (Fin (- 0.01)) (Fin 1000000) = Fin (- 10000)"
  by (rule d_mul_eval [OF rnd_at_45 rnd_at_35 rnd_at_46]) simp_all

lemma rnd_at_47: "rnd 0 = 0"
  by simp
























lemma rnd_at_63: "rnd (- 0.0027) = - (3112888062438487 / 1152921504606846976)"
  by (rule rnd_evalI [where k = 61]) (simp_all add: round_half_even_def)

lemma rnd_at_64: "rnd (0 + (- (3112888062438487 / 1152921504606846976))) = - (3112888062438487 / 1152921504606846976)"
  by (rule rnd_evalI [where k = 61]) (simp_all add: round_half_even_def)

lemma sum_c1: "d_add (Fin 0) (Fin (- 0.0027)) = Fin (- (3112888062438487 / 1152921504606846976))"
  by (rule d_add_eval [OF rnd_at_47 rnd_at_63 rnd_at_64]) simp_all

lemma rnd_at_65: "rnd (- (3112888062438487 / 1152921504606846976)) = - (3112888062438487 / 1152921504606846976)"
  by (rule rnd_evalI [where k = 61]) (simp_all add: round_half_even_def)

lemma rnd_at_66: "rnd ((- (3112888062438487 / 1152921504606846976)) + (- (3112888062438487 / 1152921504606846976))) = - (3112888062438487 / 576460752303423488)"
  by (rule rnd_evalI [where k = 60]) (simp_all add: round_half_even_def)

lemma sum_c2: "d_add (Fin (- (3112888062438487 / 1152921504606846976))) (Fin (- 0.0027)) = Fin (- (3112888062438487 / 576460752303423488))"
  by (rule d_add_eval [OF rnd_at_65 rnd_at_63 rnd_at_66]) simp_all

lemma rnd_at_67: "rnd (- (3112888062438487 / 576460752303423488)) = - (3112888062438487 / 576460752303423488)"
  by (rule rnd_evalI [where k = 60]) (simp_all add: round_half_even_def)

lemma rnd_at_68: "rnd ((- (3112888062438487 / 576460752303423488)) + (- (3112888062438487 / 1152921504606846976))) = - (2334666046828865 / 288230376151711744)"
  by (rule rnd_evalI [where k = 59]) (simp_all add: round_half_even_def)

lemma sum_c3: "d_add (Fin (- (3112888062438487 / 576460752303423488))) (Fin (- 0.0027)) = Fin (- (2334666046828865 / 288230376151711744))"
  by (rule d_add_eval [OF rnd_at_67 rnd_at_63 rnd_at_68]) simp_all

lemma rnd_at_69: "rnd (- (2334666046828865 / 288230376151711744)) = - (2334666046828865 / 288230376151711744)"
  by (rule rnd_evalI [where k = 59]) (simp_all add: round_half_even_def)

lemma rnd_at_70: "rnd 3 = 3"
  by (rule rnd_evalI [where k = 51]) (simp_all add: round_half_even_def)

lemma rnd_at_71: "rnd ((- (2334666046828865 / 288230376151711744)) / 3) = - (6225776124876973 / 2305843009213693952)"
  by (rule rnd_evalI [where k = 61]) (simp_all add: round_half_even_def)

lemma mean_c: "d_div (Fin (- (2334666046828865 / 288230376151711744))) (Fin 3) = Fin (- (6225776124876973 / 2305843009213693952))"
  by (rule d_div_eval [OF rnd_at_69 rnd_at_70 rnd_at_71]) simp_all

lemma rnd_at_72: "rnd (6225776124876973 / 2305843009213693952) = 6225776124876973 / 2305843009213693952"
  by (rule rnd_evalI [where k = 61]) (simp_all add: round_half_even_def)

lemma rnd_at_73: "rnd ((6225776124876973 / 2305843009213693952) * 100) = 4863887597560135 / 18014398509481984"
  by (rule rnd_evalI [where k = 54]) (simp_all add: round_half_even_def)

lemma es_pct_c: "d_mul (Fin (6225776124876973 / 2305843009213693952)) (Fin 100) = Fin (4863887597560135 / 18014398509481984)"
  by (rule d_mul_eval [OF rnd_at_72 rnd_100 rnd_at_73]) simp_all

lemma rnd_at_74: "rnd 0.0027 = 3112888062438487 / 1152921504606846976"
  by (rule rnd_evalI [where k = 61]) (simp_all add: round_half_even_def)

lemma rnd_at_75: "rnd ((3112888062438487 / 1152921504606846976) * 100) = 607985949695017 / 2251799813685248"
  by (rule rnd_evalI [where k = 54]) (simp_all add: round_half_even_def)

lemma pct_00027: "d_mul (Fin 0.0027) (Fin 100) = Fin (607985949695017 / 2251799813685248)"
  by (rule d_mul_eval [OF rnd_at_74 rnd_100 rnd_at_75]) simp_all

lemma rnd_tiny_1: "rnd (1 / 2 ^ 60) = 1 / 1152921504606846976"
  by (rule rnd_evalI [where k = 112]) (simp_all add: round_half_even_def)

lemma rnd_tiny_2: "rnd (1 - (1 / 1152921504606846976)) = 1"
  by (rule rnd_evalI [where k = 53]) (simp_all add: round_half_even_def)

section \<open>The Basel traffic light\<close>

text \<open>
  Claim C4.  At confidence 0.95 the light is GREEN exactly for breach counts up to 4,
  YELLOW exactly for counts from 5 to 9 and RED exactly for counts of 10 and more; at
  confidence 0.99 it is GREEN exactly for counts up to 2, RED exactly for all other
  counts and never YELLOW.  The number of days plays no part in the result.
\<close>

theorem basel_traffic_light_bands:
  "(fst (basel_traffic_light b n 0.95) = ''GREEN'' \<longleftrightarrow> b \<le> 4)
   \<and> (fst (basel_traffic_light b n 0.95) = ''YELLOW'' \<longleftrightarrow> 5 \<le> b \<and> b \<le> 9)
   \<and> (fst (basel_traffic_light b n 0.95) = ''RED'' \<longleftrightarrow> 10 \<le> b)
   \<and> (fst (basel_traffic_light b n 0.99) = ''GREEN'' \<longleftrightarrow> b \<le> 2)
   \<and> (fst (basel_traffic_light b n 0.99) = ''RED'' \<longleftrightarrow> 2 < b)
   \<and> fst (basel_traffic_light b n 0.99) \<noteq> ''YELLOW''
   \<and> basel_traffic_light b n 0.95 = basel_traffic_light b n' 0.95
   \<and> basel_traffic_light b n 0.99 = basel_traffic_light b n' 0.99"
  by (simp add: basel_traffic_light_def)

theorem basel_traffic_light_bands_witness:
  "(5::int) \<le> 7 \<and> (7::int) \<le> 9
   \<and> fst (basel_traffic_light 7 250 0.95) = ''YELLOW''
   \<and> fst (basel_traffic_light 7 250 0.99) = ''RED''
   \<and> basel_traffic_light 7 250 0.95 = basel_traffic_light 7 30 0.95"
proof -
  have h: "(5::int) \<le> 7 \<and> (7::int) \<le> 9" and h': "(2::int) < 7"
    by simp_all
  with basel_traffic_light_bands [of 7 250 30] show ?thesis
    by blast
qed




section \<open>Log returns\<close>

lemma fdiv_NaN_right [simp]: "fdiv x NaN = NaN"
  by (cases x) simp_all

lemma shifted_ratio_series:
  assumes "xs \<noteq> []"
  shows "map np_log (map2 fdiv xs (shift1 xs)) = NaN # log_return_series xs"
proof (rule nth_equalityI)
  show "length (map np_log (map2 fdiv xs (shift1 xs))) = length (NaN # log_return_series xs)"
  proof -
    have "length (shift1 xs) = length xs"
      by (simp add: shift1_def)
    moreover have "length (log_return_series xs) = length xs - 1"
      by (simp add: log_return_series_def)
    moreover have "0 < length xs"
      using assms by simp
    ultimately show ?thesis
      by simp
  qed
next
  fix i
  assume "i < length (map np_log (map2 fdiv xs (shift1 xs)))"
  then have i: "i < length xs"
    by simp
  show "map np_log (map2 fdiv xs (shift1 xs)) ! i = (NaN # log_return_series xs) ! i"
  proof (cases i)
    case 0
    with i show ?thesis
      by (simp add: shift1_def)
  next
    case (Suc j)
    with i have "[1..<length xs] ! j = Suc j" and "j < length [1..<length xs]"
      by (simp_all add: less_diff_conv)
    with i Suc show ?thesis
      by (simp add: shift1_def log_return_series_def del: upt_Suc)
  qed
qed

lemma calculate_returns_dropna:
  assumes "2 \<le> length xs"
  shows "calculate_returns (Some xs) = Some (dropna (log_return_series xs))"
proof -
  from assms have ne: "xs \<noteq> []"
    by auto
  have "dropna (map np_log (map2 fdiv xs (shift1 xs))) = dropna (log_return_series xs)"
    unfolding shifted_ratio_series [OF ne] by (simp add: dropna_def)
  with assms show ?thesis
    unfolding calculate_returns_def by (simp del: map_map)
qed

text \<open>
  On prices that are all finite and positive nothing is dropped: the result is the
  series of \<open>ln (P[t] / P[t-1])\<close>, one entry less than there are prices.
\<close>

lemma calculate_returns_positive_prices:
  assumes "2 \<le> length ps" and "\<forall>p \<in> set ps. 0 < p"
  shows "calculate_returns (Some (map Fin ps)) =
           Some (map (\<lambda>t. Fin (ln (ps ! t / ps ! (t - 1)))) [1..<length ps])"
proof -
  have step: "np_log (fdiv (map Fin ps ! t) (map Fin ps ! (t - 1))) = Fin (ln (ps ! t / ps ! (t - 1)))"
    if "t \<in> set [1..<length ps]" for t
  proof -
    from that have t: "t < length ps" "t - 1 < length ps"
      by auto
    with assms(2) have "0 < ps ! t" and "0 < ps ! (t - 1)"
      by simp_all
    with t show ?thesis
      by simp
  qed
  have "log_return_series (map Fin ps) = map (\<lambda>t. Fin (ln (ps ! t / ps ! (t - 1)))) [1..<length ps]"
    unfolding log_return_series_def length_map by (rule map_cong [OF refl step])
  moreover have "dropna (map (\<lambda>t. Fin (ln (ps ! t / ps ! (t - 1)))) [1..<length ps])
      = map (\<lambda>t. Fin (ln (ps ! t / ps ! (t - 1)))) [1..<length ps]"
    by (simp add: dropna_def)
  ultimately show ?thesis
    using calculate_returns_dropna [of "map Fin ps"] assms(1) by simp
qed

text \<open>
  Claim C2, as the specification states it, fails: the result can hold infinities.  With
  the closing prices 100, 0 and 50 the two ratios are \<open>0 / 100\<close> and \<open>50 / 0\<close>, their
  logarithms are minus infinity and plus infinity, and \<^verbatim>\<open>dropna\<close> keeps both.
\<close>

theorem calculate_returns_keeps_infinities:
  "calculate_returns (Some [Fin 100, Fin 0, Fin 50]) = Some [NInf, PInf]
   \<and> \<not> is_finite NInf \<and> \<not> is_finite PInf"
  by (simp add: calculate_returns_def shift1_def dropna_def inf_of_sign_def)

text \<open>
  Claim C2, amended.  For a price series with at least 2 points the result is the
  log-return series with every NaN removed, and nothing else removed; for fewer than 2
  points, and for no price data at all, the result is \<^verbatim>\<open>None\<close>.
\<close>

theorem calculate_returns_series:
  "calculate_returns None = None
   \<and> calculate_returns (Some close) =
       (if length close < 2 then None
        else Some (filter (\<lambda>v. \<not> isnan v) (log_return_series close)))"
proof (cases "length close < 2")
  case True
  then show ?thesis
    by (simp add: calculate_returns_def)
next
  case False
  then have "2 \<le> length close"
    by simp
  from calculate_returns_dropna [OF this] False show ?thesis
    by (simp add: calculate_returns_def dropna_def)
qed

theorem calculate_returns_series_witness:
  "calculate_returns (Some [Fin 1, NaN, Fin 2, Fin 4]) = Some [Fin (ln 2)]
   \<and> calculate_returns (Some [Fin 1]) = None"
  using calculate_returns_series [of "[Fin 1, NaN, Fin 2, Fin 4]"]
    calculate_returns_series [of "[Fin 1]"]
  by (simp add: log_return_series_def)


section \<open>Historical VaR and Expected Shortfall\<close>

text \<open>
  The index stays inside the sorted array for every confidence level from \<open>2^(-51)\<close> to 1:
  the double \<open>1 - c\<close> is then at most \<open>1 - 2^(-51)\<close>, and its double product with the
  length is below the length.
\<close>

lemma rnd_confidence_low: "rnd (1 / 2 ^ 51) = 1 / 2 ^ 51"
  by (rule rnd_evalI [where k = 103]) (simp_all add: round_half_even_def)

lemma rnd_confidence_high: "rnd (1 - 1 / 2 ^ 51) = 1 - 1 / 2 ^ 51"
  by (rule rnd_evalI [where k = 53]) (simp_all add: round_half_even_def)

lemma index_product_bound:
  fixes x :: real
  assumes "1 \<le> x"
  shows "(1 - 1 / 2 ^ 51) * (x * (1 + 1 / 2 ^ 53) + 1 / 2 ^ 1075) * (1 + 1 / 2 ^ 53) + 1 / 2 ^ 1075 < x"
proof -
  have t: "(1::real) / 2 ^ 1075 \<le> 1 / 2 ^ 60"
    by simp
  have "(1 - 1 / 2 ^ 51) * (x * (1 + 1 / 2 ^ 53) + 1 / 2 ^ 1075) * (1 + 1 / 2 ^ 53) + 1 / 2 ^ 1075
      \<le> (1 - 1 / 2 ^ 51) * (x * (1 + 1 / 2 ^ 53) + 1 / 2 ^ 60) * (1 + 1 / 2 ^ 53) + 1 / 2 ^ 60"
    by (intro add_mono mult_right_mono mult_left_mono t order_refl) simp_all
  also have "\<dots> < x"
    using assms by (simp add: algebra_simps)
  finally show ?thesis .
qed

lemma var_index_bounds:
  assumes "1 / 2 ^ 51 \<le> c" and "c \<le> 1" and "0 < n"
  shows "py_int (r_mul (r_sub 1 c) (real n)) = int (var_index_of c n)" and "var_index_of c n < n"
proof -
  have c: "1 / 2 ^ 51 \<le> rnd c" "rnd c \<le> 1"
    using rnd_mono [OF assms(1)] rnd_mono [OF assms(2)]
    by (simp_all only: rnd_confidence_low rnd_one)
  have "0 \<le> 1 - rnd c" and "1 - rnd c \<le> 1 - 1 / 2 ^ 51"
    using c by simp_all
  from rnd_nonneg [OF this(1)] rnd_mono [OF this(2)]
  have a: "0 \<le> r_sub 1 c" "r_sub 1 c \<le> 1 - 1 / 2 ^ 51"
    by (simp_all only: r_sub_def rnd_one rnd_confidence_high)
  from rnd_nonneg [OF a(1)] rnd_mono [OF a(2)]
  have a': "0 \<le> rnd (r_sub 1 c)" "rnd (r_sub 1 c) \<le> 1 - 1 / 2 ^ 51"
    by (simp_all only: rnd_confidence_high)
  have n: "0 \<le> rnd (real n)" "rnd (real n) \<le> real n * (1 + 1 / 2 ^ 53) + 1 / 2 ^ 1075"
    using rnd_nonneg [of "real n"] rnd_upper [of "real n"] by simp_all
  let ?p = "rnd (r_sub 1 c) * rnd (real n)"
  have p0: "0 \<le> ?p"
    using a'(1) n(1) by simp
  have p1: "?p \<le> (1 - 1 / 2 ^ 51) * (real n * (1 + 1 / 2 ^ 53) + 1 / 2 ^ 1075)"
    using a' n by (intro mult_mono) simp_all
  have "r_mul (r_sub 1 c) (real n) \<le> ?p * (1 + 1 / 2 ^ 53) + 1 / 2 ^ 1075"
    unfolding r_mul_def by (rule rnd_upper [OF p0])
  also have "\<dots> \<le> (1 - 1 / 2 ^ 51) * (real n * (1 + 1 / 2 ^ 53) + 1 / 2 ^ 1075) * (1 + 1 / 2 ^ 53)
      + 1 / 2 ^ 1075"
    by (intro add_mono mult_right_mono p1 order_refl) simp
  also have "\<dots> < real n"
    using assms(3) by (intro index_product_bound) simp
  finally have lt: "r_mul (r_sub 1 c) (real n) < real n" .
  have ge: "0 \<le> r_mul (r_sub 1 c) (real n)"
    unfolding r_mul_def by (rule rnd_nonneg [OF p0])
  from ge show "py_int (r_mul (r_sub 1 c) (real n)) = int (var_index_of c n)"
    by (simp add: py_int_def var_index_of_def)
  from lt have "\<lfloor>r_mul (r_sub 1 c) (real n)\<rfloor> < int n"
    by (simp add: floor_less_iff)
  moreover from ge have "0 \<le> \<lfloor>r_mul (r_sub 1 c) (real n)\<rfloor>"
    by simp
  ultimately show "var_index_of c n < n"
    unfolding var_index_of_def by linarith
qed

lemma historical_var_value:
  assumes "10 \<le> length rs" and "1 / 2 ^ 51 \<le> c" and "c \<le> 1"
  shows "historical_var (Some rs) c v =
     Inr (Some \<lparr>var_return = d_mul (Fin \<bar>sort rs ! var_index_of c (length rs)\<bar>) (Fin 100),
                var_dollar = fabs (d_mul (Fin (sort rs ! var_index_of c (length rs))) (Fin v)),
                var_confidence = c, var_method = ''Historical Simulation''\<rparr>)"
proof -
  have "0 < length rs"
    using assms(1) by auto
  from var_index_bounds [OF assms(2,3) this] assms(1) show ?thesis
    by (simp add: historical_var_def py_index_def bind_err_def Let_def)
qed

lemma historical_var_short: "length rs < 10 \<Longrightarrow> historical_var (Some rs) c v = Inr None"
  by (simp add: historical_var_def)

lemma length_Suc_nonempty: "length xs = Suc k \<Longrightarrow> xs \<noteq> []"
  by auto

lemma expected_shortfall_value:
  assumes "10 \<le> length rs" and "1 / 2 ^ 51 \<le> c" and "c \<le> 1"
  shows "expected_shortfall np_sum (Some rs) c v =
     Some \<lparr>es_return = d_mul (fabs (np_mean np_sum (take (Suc (var_index_of c (length rs))) (sort rs))))
                          (Fin 100),
           es_dollar = d_mul (fabs (np_mean np_sum (take (Suc (var_index_of c (length rs))) (sort rs))))
                          (Fin v),
           es_confidence = c, es_method = ''Expected Shortfall''\<rparr>"
proof -
  have pos: "0 < length rs"
    using assms(1) by auto
  let ?k = "var_index_of c (length rs)"
  have k: "py_int (r_mul (r_sub 1 c) (real (length rs))) = int ?k"
    using var_index_bounds(1) [OF assms(2,3) pos] by simp
  have sl: "py_slice_to (sort rs) (int ?k + 1) = take (Suc ?k) (sort rs)"
    by (simp add: py_slice_to_def nat_add_distrib)
  from assms(1) show ?thesis
    by (simp add: expected_shortfall_def Let_def k sl del: take_Suc_Cons)
qed

text \<open>The indices of the examples, and the mean of a tail of two or three returns.\<close>

lemma var_index_095_10: "var_index_of 0.95 10 = 0"
  unfolding var_index_of_def of_nat_numeral one_minus_095 index_095_10 by simp


lemma var_index_075_10: "var_index_of 0.75 10 = 2"
  unfolding var_index_of_def of_nat_numeral one_minus_075 index_075_10 by simp


lemma np_mean_three:
  "np_mean sum_left_to_right [x, y, z]
     = d_div (d_add (d_add (d_add (Fin 0) (Fin x)) (Fin y)) (Fin z)) (Fin 3)"
  by (simp add: np_mean_def sum_left_to_right_def)

text \<open>
  The index is the floor of the double product: at a confidence of 0.9 and ten returns
  the double \<open>1 - 0.9\<close> is 0.09999999999999998, the product 0.9999999999999998 and the
  index 0.
\<close>

lemma var_index_rounding: "var_index_of 0.9 10 = 0"
  unfolding var_index_of_def of_nat_numeral one_minus_09 index_09_10 by simp

text \<open>
  Below \<open>2^(-53)\<close> the confidence level is lost in the subtraction: the double \<open>1 - c\<close> is
  1, the index is the length of the array, and the lookup raises.
\<close>

lemma historical_var_tiny_confidence:
  "historical_var (Some [0.01, - 0.02, 0.03, 0.01, 0.02, - 0.01, 0.02, 0.01, 0.03, 0.02])
     (1 / 2 ^ 60) 1000000 = Inl IndexError"
proof -
  have s: "r_sub 1 (1 / 2 ^ 60) = 1"
    by (rule r_sub_eval [OF rnd_one rnd_tiny_1 rnd_tiny_2])
  have t: "rnd (1 * 10) = 10"
    by (rule rnd_evalI [where k = 49]) (simp_all add: round_half_even_def)
  have r: "rnd 10 = 10"
    by (rule rnd_evalI [where k = 49]) (simp_all add: round_half_even_def)
  have m: "r_mul 1 10 = 10"
    by (rule r_mul_eval [OF rnd_one r t])
  have l: "real (length (sort [0.01, - 0.02, 0.03, 0.01, 0.02, - 0.01, 0.02, 0.01, 0.03, 0.02 :: real])) = 10"
    by simp
  show ?thesis
    unfolding historical_var_def option.case Let_def l s m
    by (simp add: py_int_def py_index_def)
qed

text \<open>The cutoff return and the tail of each example.\<close>

lemma cutoff_ten:
  "sort [0.01, - 0.02, 0.03, 0.01, 0.02, - 0.01, 0.02, 0.01, 0.03, 0.02 :: real]
     ! var_index_of 0.95 (length [0.01, - 0.02, 0.03, 0.01, 0.02, - 0.01, 0.02, 0.01, 0.03, 0.02 :: real])
     = - 0.02"
proof -
  have l: "length [0.01, - 0.02, 0.03, 0.01, 0.02, - 0.01, 0.02, 0.01, 0.03, 0.02 :: real] = 10"
    by simp
  show "sort [0.01, - 0.02, 0.03, 0.01, 0.02, - 0.01, 0.02, 0.01, 0.03, 0.02 :: real]
     ! var_index_of 0.95 (length [0.01, - 0.02, 0.03, 0.01, 0.02, - 0.01, 0.02, 0.01, 0.03, 0.02 :: real])
     = - 0.02"
    unfolding l var_index_095_10 by simp
qed



lemma cutoff_equal:
  "sort [- 0.0027, 0.01, - 0.0027, 0.02, 0.01, - 0.0027, 0.03, 0.01, 0.02, 0.01 :: real]
     ! var_index_of 0.75 (length [- 0.0027, 0.01, - 0.0027, 0.02, 0.01, - 0.0027, 0.03, 0.01, 0.02, 0.01 :: real])
     = - 0.0027"
  and tail_equal:
  "take (Suc (var_index_of 0.75 (length [- 0.0027, 0.01, - 0.0027, 0.02, 0.01, - 0.0027, 0.03, 0.01, 0.02, 0.01 :: real])))
     (sort [- 0.0027, 0.01, - 0.0027, 0.02, 0.01, - 0.0027, 0.03, 0.01, 0.02, 0.01 :: real])
     = [- 0.0027, - 0.0027, - 0.0027]"
proof -
  have l: "length [- 0.0027, 0.01, - 0.0027, 0.02, 0.01, - 0.0027, 0.03, 0.01, 0.02, 0.01 :: real] = 10"
    by simp
  show "sort [- 0.0027, 0.01, - 0.0027, 0.02, 0.01, - 0.0027, 0.03, 0.01, 0.02, 0.01 :: real]
     ! var_index_of 0.75 (length [- 0.0027, 0.01, - 0.0027, 0.02, 0.01, - 0.0027, 0.03, 0.01, 0.02, 0.01 :: real])
     = - 0.0027"
    unfolding l var_index_075_10 by simp
  show "take (Suc (var_index_of 0.75 (length [- 0.0027, 0.01, - 0.0027, 0.02, 0.01, - 0.0027, 0.03, 0.01, 0.02, 0.01 :: real])))
     (sort [- 0.0027, 0.01, - 0.0027, 0.02, 0.01, - 0.0027, 0.03, 0.01, 0.02, 0.01 :: real])
     = [- 0.0027, - 0.0027, - 0.0027]"
    unfolding l var_index_075_10 by simp
qed



lemma mean_equal:
  "np_mean sum_left_to_right [- 0.0027, - 0.0027, - 0.0027]
     = Fin (- (6225776124876973 / 2305843009213693952))"
  unfolding np_mean_three sum_c1 sum_c2 sum_c3 mean_c ..


text \<open>
  Rounding alone can put the Expected Shortfall below the VaR.  Ten returns, confidence
  0.75: the index is 2 and the three smallest returns are all -0.0027.  Their double mean
  is -0.0026999999999999997, so the Expected Shortfall return is 0.26999999999999996 and
  the VaR return 0.27.
\<close>

lemma expected_shortfall_mean_rounding:
  "\<exists>h e. historical_var (Some [- 0.0027, 0.01, - 0.0027, 0.02, 0.01, - 0.0027, 0.03, 0.01, 0.02, 0.01])
             0.75 1000000 = Inr (Some h)
     \<and> expected_shortfall sum_left_to_right
             (Some [- 0.0027, 0.01, - 0.0027, 0.02, 0.01, - 0.0027, 0.03, 0.01, 0.02, 0.01])
             0.75 1000000 = Some e
     \<and> var_return h = Fin (607985949695017 / 2251799813685248)
     \<and> es_return e = Fin (4863887597560135 / 18014398509481984)
     \<and> \<not> fle (var_return h) (es_return e)"
proof -
  let ?rs = "[- 0.0027, 0.01, - 0.0027, 0.02, 0.01, - 0.0027, 0.03, 0.01, 0.02, 0.01 :: real]"
  have len: "10 \<le> length ?rs" and h1: "1 / 2 ^ 51 \<le> (0.75::real)" and h2: "(0.75::real) \<le> 1"
    by simp_all
  have a: "\<bar>- 0.0027\<bar> = (0.0027::real)"
    and b: "fabs (Fin (- (6225776124876973 / 2305843009213693952)))
              = Fin (6225776124876973 / 2305843009213693952)"
    by simp_all
  note h = historical_var_value [OF len h1 h2, of 1000000, unfolded cutoff_equal a pct_00027]
  note e = expected_shortfall_value [OF len h1 h2, of sum_left_to_right 1000000,
      unfolded tail_equal mean_equal b es_pct_c]
  show ?thesis
    unfolding h e by simp
qed




text \<open>
  Claim C3, as the specification states it, fails on the dollar figure: the code takes
  the magnitude of the product of the return and the position value.  For a short
  position of -1000000 and a cutoff return of -0.02 it is 20000, where
  \<open>|sorted[k]| * v\<close> is -20000.
\<close>

theorem historical_var_negative_position:
  "historical_var (Some [0.01, - 0.02, 0.03, 0.01, 0.02, - 0.01, 0.02, 0.01, 0.03, 0.02]) 0.95 (- 1000000)
     = Inr (Some \<lparr>var_return = Fin 2, var_dollar = Fin 20000, var_confidence = 0.95,
                  var_method = ''Historical Simulation''\<rparr>)
   \<and> d_mul (Fin \<bar>sort [0.01, - 0.02, 0.03, 0.01, 0.02, - 0.01, 0.02, 0.01, 0.03, 0.02 :: real]
                  ! var_index_of 0.95 (length [0.01, - 0.02, 0.03, 0.01, 0.02, - 0.01, 0.02, 0.01, 0.03, 0.02 :: real])\<bar>)
        (Fin (- 1000000)) = Fin (- 20000)"
proof -
  let ?rs = "[0.01, - 0.02, 0.03, 0.01, 0.02, - 0.01, 0.02, 0.01, 0.03, 0.02 :: real]"
  have len: "10 \<le> length ?rs" and h1: "1 / 2 ^ 51 \<le> (0.95::real)" and h2: "(0.95::real) \<le> 1"
    by simp_all
  have a: "\<bar>- 0.02\<bar> = (0.02::real)" and c: "fabs (Fin 20000) = Fin 20000"
    by simp_all
  note h = historical_var_value [OF len h1 h2, of "- 1000000",
      unfolded cutoff_ten a pct_002 dollar_m002_short c]
  show ?thesis
    unfolding h cutoff_ten a dollar_002_short by simp
qed

text \<open>
  Claim C3, amended.  For a confidence level \<open>c\<close> with \<open>2^(-51) \<le> c \<le> 1\<close> and any position
  value \<open>v\<close>: a series of fewer than 10 returns gives \<^verbatim>\<open>None\<close>; otherwise the returns are
  sorted ascending, \<open>k\<close> is the floor of \<open>(1 - c) * n\<close> computed in double arithmetic, which
  is an index of the array, the VaR return is the double \<open>|sorted[k]| * 100\<close> and the
  dollar VaR is the magnitude of the double \<open>sorted[k] * v\<close>, which is the double
  \<open>|sorted[k]| * v\<close> when \<open>v\<close> is not negative.
\<close>

theorem historical_var_order_statistic:
  assumes "1 / 2 ^ 51 \<le> c" and "c \<le> 1"
  shows "(let k = var_index_of c (length rs); s = sort rs ! k in
     historical_var (Some rs) c v =
       (if length rs < 10 then Inr None
        else Inr (Some \<lparr>var_return = d_mul (Fin \<bar>s\<bar>) (Fin 100),
                        var_dollar = fabs (d_mul (Fin s) (Fin v)),
                        var_confidence = c, var_method = ''Historical Simulation''\<rparr>))
     \<and> (10 \<le> length rs \<longrightarrow> k < length rs)
     \<and> (0 \<le> v \<longrightarrow> fabs (d_mul (Fin s) (Fin v)) = d_mul (Fin \<bar>s\<bar>) (Fin v)))"
proof -
  let ?k = "var_index_of c (length rs)"
  let ?s = "sort rs ! ?k"
  have a: "historical_var (Some rs) c v =
       (if length rs < 10 then Inr None
        else Inr (Some \<lparr>var_return = d_mul (Fin \<bar>?s\<bar>) (Fin 100),
                        var_dollar = fabs (d_mul (Fin ?s) (Fin v)),
                        var_confidence = c, var_method = ''Historical Simulation''\<rparr>))"
  proof (cases "length rs < 10")
    case True
    then show ?thesis
      by (simp add: historical_var_short)
  next
    case False
    then have "10 \<le> length rs"
      by simp
    from historical_var_value [OF this assms] False show ?thesis
      by simp
  qed
  have b: "10 \<le> length rs \<longrightarrow> ?k < length rs"
  proof
    assume "10 \<le> length rs"
    then have "0 < length rs"
      by linarith
    then show "?k < length rs"
      by (rule var_index_bounds(2) [OF assms])
  qed
  have c: "0 \<le> v \<longrightarrow> fabs (d_mul (Fin ?s) (Fin v)) = d_mul (Fin \<bar>?s\<bar>) (Fin v)"
    using d_mul_fabs [of v ?s] by simp
  from a b c show ?thesis
    unfolding Let_def by blast
qed

theorem historical_var_order_statistic_witness:
  "(1::real) / 2 ^ 51 \<le> 0.95 \<and> (0.95::real) \<le> 1 \<and> (0::real) \<le> 1000000
   \<and> historical_var (Some [0.01, - 0.02, 0.03, 0.01, 0.02, - 0.01, 0.02, 0.01, 0.03, 0.02]) 0.95 1000000
       = Inr (Some \<lparr>var_return = Fin 2, var_dollar = Fin 20000, var_confidence = 0.95,
                    var_method = ''Historical Simulation''\<rparr>)
   \<and> historical_var (Some [0.01, - 0.02, 0.03]) 0.95 1000000 = Inr None"
proof -
  let ?rs = "[0.01, - 0.02, 0.03, 0.01, 0.02, - 0.01, 0.02, 0.01, 0.03, 0.02 :: real]"
  have h1: "1 / 2 ^ 51 \<le> (0.95::real)" and h2: "(0.95::real) \<le> 1"
    by simp_all
  have a: "\<bar>- 0.02\<bar> = (0.02::real)" and c: "fabs (Fin (- 20000)) = Fin 20000"
    by simp_all
  note long = historical_var_order_statistic [OF h1 h2, of ?rs 1000000,
      unfolded Let_def cutoff_ten a pct_002 dollar_m002 c]
  note short = historical_var_order_statistic [OF h1 h2, of "[0.01, - 0.02, 0.03]" 1000000,
      unfolded Let_def]
  from long short show ?thesis
    by simp
qed

section \<open>The Kupiec test\<close>

lemma kupiec_degenerate:
  assumes "n \<noteq> 0" and "b = 0 \<or> b = n"
  shows "kupiec_test cdf b n c =
           Inr \<lparr>lr_statistic = Fin 0, critical_value = 3.841, p_value = fsub (Fin 1) (cdf (Fin 0)),
                 reject_model = False, interpretation_msg = ''Accept model''\<rparr>"
  using assms by (auto simp add: kupiec_test_def py_truediv_def fgt_def Let_def)

lemma kupiec_total:
  assumes "n \<noteq> 0" and "0 \<le> b" and "b \<le> n"
  shows "\<exists>r. kupiec_test cdf b n c = Inr r"
  using assms by (simp add: kupiec_test_def py_truediv_def Let_def py_pow_nonneg)

lemma kupiec_reject:
  assumes "kupiec_test cdf b n c = Inr r"
  shows "critical_value r = 3.841 \<and> (reject_model r \<longleftrightarrow> fgt (lr_statistic r) (Fin 3.841))"
  using assms
  by (auto simp add: kupiec_test_def Let_def bind_err_def split: sum.splits if_splits)

text \<open>
  Claim C5.  For every confidence level and at least one day: with no breach, or a breach
  on every day, the test returns the statistic 0 (and does not reject); for every breach
  count from 0 to the number of days the test returns a result; and every result it
  returns has the critical value 3.841 and rejects exactly when the statistic is greater
  than 3.841, whatever the confidence level.
\<close>

theorem kupiec_test_statistic:
  assumes "1 \<le> n"
  shows "(b = 0 \<or> b = n \<longrightarrow>
            (\<exists>r. kupiec_test cdf b n c = Inr r \<and> lr_statistic r = Fin 0 \<and> \<not> reject_model r))
       \<and> (0 \<le> b \<and> b \<le> n \<longrightarrow> (\<exists>r. kupiec_test cdf b n c = Inr r))
       \<and> (\<forall>r. kupiec_test cdf b n c = Inr r \<longrightarrow>
             critical_value r = 3.841 \<and> (reject_model r \<longleftrightarrow> fgt (lr_statistic r) (Fin 3.841)))"
proof -
  from assms have n: "n \<noteq> 0"
    by simp
  show ?thesis
    using kupiec_degenerate [OF n, of b cdf c] kupiec_total [OF n, of b cdf c]
      kupiec_reject [of cdf b n c]
    by auto
qed

theorem kupiec_test_statistic_witness:
  "\<forall>cdf. (1::int) \<le> 250
     \<and> (\<exists>r. kupiec_test cdf 0 250 0.95 = Inr r \<and> lr_statistic r = Fin 0 \<and> \<not> reject_model r)
     \<and> (\<exists>r. kupiec_test cdf 250 250 0.99 = Inr r \<and> lr_statistic r = Fin 0 \<and> \<not> reject_model r)
     \<and> (\<exists>r. kupiec_test cdf 20 250 0.95 = Inr r \<and> critical_value r = 3.841
            \<and> (reject_model r \<longleftrightarrow> fgt (lr_statistic r) (Fin 3.841)))"
proof
  fix cdf :: "fval \<Rightarrow> fval"
  have h: "(1::int) \<le> 250"
    by simp
  have d: "(0::int) \<le> 20 \<and> (20::int) \<le> 250"
    by simp
  from h d kupiec_test_statistic [OF h, of 0 cdf "0.95"]
    kupiec_test_statistic [OF h, of 250 cdf "0.99"]
    kupiec_test_statistic [OF h, of 20 cdf "0.95"]
  show "(1::int) \<le> 250
     \<and> (\<exists>r. kupiec_test cdf 0 250 0.95 = Inr r \<and> lr_statistic r = Fin 0 \<and> \<not> reject_model r)
     \<and> (\<exists>r. kupiec_test cdf 250 250 0.99 = Inr r \<and> lr_statistic r = Fin 0 \<and> \<not> reject_model r)
     \<and> (\<exists>r. kupiec_test cdf 20 250 0.95 = Inr r \<and> critical_value r = 3.841
            \<and> (reject_model r \<longleftrightarrow> fgt (lr_statistic r) (Fin 3.841)))"
    by blast
qed

section \<open>The alert monitor\<close>

lemma newest_append: "newest k (newest k xs @ ys) = newest k (xs @ ys)"
proof (cases "length xs \<le> k")
  case True
  then show ?thesis
    by (simp add: newest_def)
next
  case False
  then have "length xs - k + k = length xs"
    and "length xs + length ys - k = length ys + (length xs - k)"
    by simp_all
  then show ?thesis
    by (simp add: newest_def)
qed

lemma newest_short: "length xs \<le> k \<Longrightarrow> newest k xs = xs"
  by (simp add: newest_def)

lemma length_newest: "length (newest k xs) = min k (length xs)"
  by (simp add: newest_def)

lemma deque_append_newest:
  assumes "length d \<le> cap"
  shows "deque_append cap d x = newest cap (d @ [x])"
proof (cases "length d < cap")
  case True
  then show ?thesis
    by (simp add: deque_append_def newest_def Let_def)
next
  case False
  with assms have "length d = cap"
    by simp
  then have "length (d @ [x]) - cap = Suc 0" and "cap < length (d @ [x])"
    by simp_all
  then show ?thesis
    unfolding deque_append_def newest_def Let_def by (simp only: drop_Suc drop_0 if_True)
qed

lemma append_alerts_newest:
  "length (alerts m) \<le> maxlen m \<Longrightarrow>
   append_alerts m bs = m\<lparr>alerts := newest (maxlen m) (alerts m @ bs)\<rparr>"
proof (induction bs arbitrary: m)
  case Nil
  then show ?case by (simp add: newest_short)
next
  case (Cons b bs)
  let ?m = "m\<lparr>alerts := deque_append (maxlen m) (alerts m) b\<rparr>"
  have d: "deque_append (maxlen m) (alerts m) b = newest (maxlen m) (alerts m @ [b])"
    using Cons.prems by (rule deque_append_newest)
  then have "length (alerts ?m) \<le> maxlen ?m"
    by (simp add: length_newest)
  from Cons.IH [OF this] d show ?case
    using newest_append [of "maxlen m" "alerts m @ [b]" bs] by simp
qed


lemma count_level_append: "count_level l (xs @ ys) = count_level l xs + count_level l ys"
  by (simp add: count_level_def)

lemma check_breach_state:
  assumes "length (alerts m) \<le> maxlen m"
  shows "maxlen (snd (check_breach m r v95 v99 s t)) = maxlen m"
    and "alerts (snd (check_breach m r v95 v99 s t))
           = newest (maxlen m) (alerts m @ fst (check_breach m r v95 v99 s t))"
    and "breach_count_95 (snd (check_breach m r v95 v99 s t))
           = breach_count_95 m + count_level ''95%'' (fst (check_breach m r v95 v99 s t))"
    and "breach_count_99 (snd (check_breach m r v95 v99 s t))
           = breach_count_99 m + count_level ''99%'' (fst (check_breach m r v95 v99 s t))"
  using assms
  by (simp_all add: check_breach_def Let_def deque_append_newest newest_short count_level_def)

lemma check_breach_emitted:
  "length (fst (check_breach m r v95 v99 s t)) = (if breaching (r, v95, v99, s, t) then 1 else 0)"
  "count_level ''95%'' (fst (check_breach m r v95 v99 s t))
     + count_level ''99%'' (fst (check_breach m r v95 v99 s t))
     = int (length (fst (check_breach m r v95 v99 s t)))"
  by (auto simp add: check_breach_def Let_def breaching_def count_level_def)

lemma check_breach_calls_state:
  assumes "length (alerts m) \<le> maxlen m"
  shows "maxlen (snd (check_breach_calls m calls)) = maxlen m
     \<and> alerts (snd (check_breach_calls m calls))
           = newest (maxlen m) (alerts m @ fst (check_breach_calls m calls))
     \<and> breach_count_95 (snd (check_breach_calls m calls))
           = breach_count_95 m + count_level ''95%'' (fst (check_breach_calls m calls))
     \<and> breach_count_99 (snd (check_breach_calls m calls))
           = breach_count_99 m + count_level ''99%'' (fst (check_breach_calls m calls))"
  using assms
proof (induction calls arbitrary: m)
  case Nil
  then show ?case
    by (simp add: newest_short count_level_def)
next
  case (Cons call calls)
  obtain r v95 v99 s t where call: "call = (r, v95, v99, s, t)"
    by (cases call) auto
  let ?out = "fst (check_breach m r v95 v99 s t)"
  let ?m = "snd (check_breach m r v95 v99 s t)"
  note st = check_breach_state [OF Cons.prems, of r v95 v99 s t]
  have inv: "length (alerts ?m) \<le> maxlen ?m"
    by (simp add: st(1,2) length_newest)
  have run: "check_breach_calls m (call # calls)
      = (?out @ fst (check_breach_calls ?m calls), snd (check_breach_calls ?m calls))"
    by (simp add: call split_beta)
  from Cons.IH [OF inv] show ?case
    unfolding run fst_conv snd_conv st
    by (simp add: newest_append count_level_append)
qed

lemma check_breach_calls_emitted:
  "count_level ''95%'' (fst (check_breach_calls m calls))
     + count_level ''99%'' (fst (check_breach_calls m calls))
     = int (length (fst (check_breach_calls m calls)))"
  "(\<forall>c \<in> set calls. breaching c) \<Longrightarrow> length (fst (check_breach_calls m calls)) = length calls"
proof (induction calls arbitrary: m)
  case Nil
  { case 1 show ?case by (simp add: count_level_def) }
  { case 2 show ?case by simp }
next
  case (Cons call calls)
  obtain r v95 v99 s t where call: "call = (r, v95, v99, s, t)"
    by (cases call) auto
  { case 1
    show ?case
      using Cons.IH(1) [of "snd (check_breach m r v95 v99 s t)"] check_breach_emitted(2) [of m r v95 v99 s t]
      by (simp add: call split_beta count_level_append) }
  { case 2
    then show ?case
      using Cons.IH(2) [of "snd (check_breach m r v95 v99 s t)"] check_breach_emitted(1) [of m r v95 v99 s t]
      by (simp add: call split_beta) }
qed

lemma apply_monitor_op_inv:
  assumes "length (alerts m) \<le> maxlen m"
  shows "length (alerts (apply_monitor_op m op)) \<le> maxlen (apply_monitor_op m op)
     \<and> maxlen (apply_monitor_op m op) = maxlen m"
proof (cases op)
  case (CheckBreach r v95 v99 s t)
  then show ?thesis
    using check_breach_state(1,2) [OF assms, of r v95 v99 s t] by (simp add: length_newest)
qed (use assms in \<open>simp_all add: reset_counts_def\<close>)

lemma run_ops_inv:
  assumes "length (alerts m) \<le> maxlen m"
  shows "length (alerts (foldl apply_monitor_op m ops)) \<le> maxlen m
     \<and> maxlen (foldl apply_monitor_op m ops) = maxlen m"
  using assms
proof (induction ops arbitrary: m)
  case Nil
  then show ?case by simp
next
  case (Cons op ops)
  from apply_monitor_op_inv [OF Cons.prems, of op] Cons.IH [of "apply_monitor_op m op"]
  show ?case by simp
qed

lemma apply_monitor_op_monotone:
  assumes "op \<noteq> ResetCounts" "length (alerts m) \<le> maxlen m"
  shows "breach_count_95 m \<le> breach_count_95 (apply_monitor_op m op)
     \<and> breach_count_99 m \<le> breach_count_99 (apply_monitor_op m op)
     \<and> length (alerts m) \<le> length (alerts (apply_monitor_op m op))"
proof (cases op)
  case (CheckBreach r v95 v99 s t)
  then show ?thesis
    using check_breach_state [OF assms(2), of r v95 v99 s t] assms(2)
    by (simp add: length_newest count_level_def)
qed (use assms in simp_all)


text \<open>
  The magnitude of the return as a percentage, \<open>|r| * 100\<close> in double arithmetic, is the
  value \<^verbatim>\<open>abs(current_return * 100)\<close> that the code compares with the thresholds.
\<close>

lemma abs_return_percent:
  "fabs (d_mul (Fin r) (Fin 100)) = d_mul (Fin \<bar>r\<bar>) (Fin 100)"
  using d_mul_fabs [of 100 r] by simp

text \<open>
  The comparison is made on the double product: for the return 0.14 and a 99% threshold
  of 14 the product is 14.000000000000002, and the call emits a CRITICAL alert.
\<close>

lemma check_breach_rounded_product:
  "fst (check_breach (init_monitor 100) 0.14 10 14 ''PORTFOLIO'' 7) =
     [\<lparr>level = ''99%'', severity = ''CRITICAL'', symbol = ''PORTFOLIO'',
        return_pct = Fin (7881299347898369 / 562949953421312), threshold = 14,
        excess = Fin (1 / 562949953421312), timestamp = 7\<rparr>]"
proof -
  have a: "fabs (Fin (7881299347898369 / 562949953421312)) = Fin (7881299347898369 / 562949953421312)"
    by simp
  show ?thesis
    unfolding check_breach_def Let_def pct_014 a
    by (simp only: gt_014_14 excess_014_14 if_True split_conv fst_conv)
qed

text \<open>
  Claim C6.  With \<open>a\<close> the double \<open>|r| * 100\<close>, a call of \<^verbatim>\<open>check_breach\<close> returns exactly
  one CRITICAL alert at level 99% when \<open>a > var99\<close>, with excess \<open>a - var99\<close> in double
  arithmetic, and no 95% alert with it; otherwise exactly one WARNING alert at level 95%
  when \<open>a > var95\<close>, with excess \<open>a - var95\<close>; otherwise no alert.  The counter of the
  alert's level, and no other, goes up by one, and the returned alerts are appended to the
  ring.  The return 0.12 with thresholds 10 and 15 gives one WARNING at 95% with excess 2.
\<close>

theorem check_breach_alerts:
  "(let a = d_mul (Fin \<bar>r\<bar>) (Fin 100) in
      fst (check_breach m r v95 v99 s t) =
        (if d_gt a (Fin v99) then
           [\<lparr>level = ''99%'', severity = ''CRITICAL'', symbol = s,
              return_pct = d_mul (Fin r) (Fin 100), threshold = v99,
              excess = d_sub a (Fin v99), timestamp = t\<rparr>]
         else if d_gt a (Fin v95) then
           [\<lparr>level = ''95%'', severity = ''WARNING'', symbol = s,
              return_pct = d_mul (Fin r) (Fin 100), threshold = v95,
              excess = d_sub a (Fin v95), timestamp = t\<rparr>]
         else [])
      \<and> breach_count_99 (snd (check_breach m r v95 v99 s t))
           = breach_count_99 m + (if d_gt a (Fin v99) then 1 else 0)
      \<and> breach_count_95 (snd (check_breach m r v95 v99 s t))
           = breach_count_95 m + (if \<not> d_gt a (Fin v99) \<and> d_gt a (Fin v95) then 1 else 0)
      \<and> (length (alerts m) \<le> maxlen m \<longrightarrow>
           alerts (snd (check_breach m r v95 v99 s t))
             = newest (maxlen m) (alerts m @ fst (check_breach m r v95 v99 s t))))"
proof -
  have "length (alerts m) \<le> maxlen m \<longrightarrow>
        alerts (snd (check_breach m r v95 v99 s t))
          = newest (maxlen m) (alerts m @ fst (check_breach m r v95 v99 s t))"
    using check_breach_state(2) by blast
  then show ?thesis
    unfolding abs_return_percent [symmetric]
    by (simp add: check_breach_def Let_def)
qed

theorem check_breach_alerts_witness:
  "fst (check_breach (init_monitor 100) 0.12 10 15 ''PORTFOLIO'' 7) =
     [\<lparr>level = ''95%'', severity = ''WARNING'', symbol = ''PORTFOLIO'', return_pct = Fin 12,
        threshold = 10, excess = Fin 2, timestamp = 7\<rparr>]
   \<and> fst (check_breach (init_monitor 100) (- 0.2) 10 15 ''PORTFOLIO'' 7) =
     [\<lparr>level = ''99%'', severity = ''CRITICAL'', symbol = ''PORTFOLIO'', return_pct = Fin (- 20),
        threshold = 15, excess = Fin 5, timestamp = 7\<rparr>]
   \<and> fst (check_breach (init_monitor 100) 0.05 10 15 ''PORTFOLIO'' 7) = []
   \<and> alerts (snd (check_breach (init_monitor 100) 0.12 10 15 ''PORTFOLIO'' 7)) =
     [\<lparr>level = ''95%'', severity = ''WARNING'', symbol = ''PORTFOLIO'', return_pct = Fin 12,
        threshold = 10, excess = Fin 2, timestamp = 7\<rparr>]"
proof -
  have inv: "length (alerts (init_monitor 100)) \<le> maxlen (init_monitor 100)"
    by (simp add: init_monitor_def)
  have a: "d_mul (Fin \<bar>0.12\<bar>) (Fin 100) = Fin 12" "d_mul (Fin \<bar>- 0.2\<bar>) (Fin 100) = Fin 20"
    "d_mul (Fin \<bar>0.05\<bar>) (Fin 100) = Fin 5"
    using pct_012 pct_m02 pct_005 abs_return_percent [of "- 0.2"] by simp_all
  note one = check_breach_alerts [where m = "init_monitor 100" and r = "0.12" and ?v95.0 = 10
      and ?v99.0 = 15 and s = "''PORTFOLIO''" and t = 7, unfolded Let_def a pct_012]
  note two = check_breach_alerts [where m = "init_monitor 100" and r = "- 0.2" and ?v95.0 = 10
      and ?v99.0 = 15 and s = "''PORTFOLIO''" and t = 7, unfolded Let_def a pct_m02]
  note three = check_breach_alerts [where m = "init_monitor 100" and r = "0.05" and ?v95.0 = 10
      and ?v99.0 = 15 and s = "''PORTFOLIO''" and t = 7, unfolded Let_def a pct_005]
  from inv one two three show ?thesis
    by (simp add: gt_12_15 gt_12_10 gt_20_15 gt_5_15 gt_5_10 excess_12_10 excess_20_15
        newest_def init_monitor_def)
qed

text \<open>
  Claim C7.  After any sequence of \<^verbatim>\<open>check_breach\<close> calls on a fresh monitor of capacity
  \<open>K\<close>: the ring holds at most \<open>K\<close> alerts, namely the newest \<open>K\<close> of the alerts emitted,
  oldest first; each counter is the number of emitted alerts of its level, evicted or not;
  the summary's total is the ring size.  The ring stays within \<open>K\<close> under any sequence of
  operations.  \<^verbatim>\<open>reset_counts\<close> empties the ring and zeroes both counters, and no other
  operation lowers a counter or shortens the ring.  With 150 breaching calls and capacity
  100 the total is 100 and the counters add up to 150.
\<close>

theorem alert_ring_and_counters:
  "(let outs = fst (check_breach_calls (init_monitor K) calls);
        m = snd (check_breach_calls (init_monitor K) calls)
    in length (alerts m) \<le> K
       \<and> alerts m = newest K outs
       \<and> breach_count_95 m = count_level ''95%'' outs
       \<and> breach_count_99 m = count_level ''99%'' outs
       \<and> breach_count_95 m + breach_count_99 m = int (length outs)
       \<and> total_alerts (get_alert_summary m) = int (min K (length outs))
       \<and> ((\<forall>c \<in> set calls. breaching c) \<longrightarrow> length outs = length calls))
   \<and> length (alerts (foldl apply_monitor_op (init_monitor K) ops)) \<le> K
   \<and> alerts (reset_counts m0) = [] \<and> breach_count_95 (reset_counts m0) = 0
   \<and> breach_count_99 (reset_counts m0) = 0
   \<and> (op \<noteq> ResetCounts \<and> length (alerts m0) \<le> maxlen m0 \<longrightarrow>
        breach_count_95 m0 \<le> breach_count_95 (apply_monitor_op m0 op)
        \<and> breach_count_99 m0 \<le> breach_count_99 (apply_monitor_op m0 op)
        \<and> length (alerts m0) \<le> length (alerts (apply_monitor_op m0 op)))"
proof -
  have inv: "length (alerts (init_monitor K)) \<le> maxlen (init_monitor K)"
    by (simp add: init_monitor_def)
  let ?outs = "fst (check_breach_calls (init_monitor K) calls)"
  let ?m = "snd (check_breach_calls (init_monitor K) calls)"
  have st: "alerts ?m = newest K ?outs" "breach_count_95 ?m = count_level ''95%'' ?outs"
    "breach_count_99 ?m = count_level ''99%'' ?outs"
    using check_breach_calls_state [OF inv, of calls] by (simp_all add: init_monitor_def)
  have len: "length (alerts ?m) = min K (length ?outs)"
    by (simp add: st(1) length_newest)
  have a: "length (alerts ?m) \<le> K \<and> total_alerts (get_alert_summary ?m) = int (min K (length ?outs))"
    using len by (simp add: get_alert_summary_def)
  have b: "breach_count_95 ?m + breach_count_99 ?m = int (length ?outs)"
    unfolding st by (rule check_breach_calls_emitted(1))
  have c: "(\<forall>c \<in> set calls. breaching c) \<longrightarrow> length ?outs = length calls"
    using check_breach_calls_emitted(2) by blast
  have d: "length (alerts (foldl apply_monitor_op (init_monitor K) ops)) \<le> K"
    using run_ops_inv [OF inv, of ops] by (simp add: init_monitor_def)
  have e: "alerts (reset_counts m0) = [] \<and> breach_count_95 (reset_counts m0) = 0
      \<and> breach_count_99 (reset_counts m0) = 0"
    by (simp add: reset_counts_def)
  have f: "op \<noteq> ResetCounts \<and> length (alerts m0) \<le> maxlen m0 \<longrightarrow>
        breach_count_95 m0 \<le> breach_count_95 (apply_monitor_op m0 op)
        \<and> breach_count_99 m0 \<le> breach_count_99 (apply_monitor_op m0 op)
        \<and> length (alerts m0) \<le> length (alerts (apply_monitor_op m0 op))"
    using apply_monitor_op_monotone by blast
  from a b c d e f st show ?thesis
    unfolding Let_def by blast
qed

theorem alert_ring_and_counters_witness:
  "total_alerts (get_alert_summary (snd (check_breach_calls (init_monitor 100)
       (replicate 100 (- 0.2, 10, 15, ''PORTFOLIO'', 1) @ replicate 50 (0.12, 10, 15, ''PORTFOLIO'', 2))))) = 100
   \<and> breach_count_95 (snd (check_breach_calls (init_monitor 100)
       (replicate 100 (- 0.2, 10, 15, ''PORTFOLIO'', 1) @ replicate 50 (0.12, 10, 15, ''PORTFOLIO'', 2))))
     + breach_count_99 (snd (check_breach_calls (init_monitor 100)
       (replicate 100 (- 0.2, 10, 15, ''PORTFOLIO'', 1) @ replicate 50 (0.12, 10, 15, ''PORTFOLIO'', 2)))) = 150
   \<and> breach_count_99 (init_monitor 100)
        \<le> breach_count_99 (apply_monitor_op (init_monitor 100) (CheckBreach (- 0.2) 10 15 ''PORTFOLIO'' 1))"
proof -
  let ?calls = "replicate 100 (- 0.2, 10, 15, ''PORTFOLIO'', 1) @ replicate 50 (0.12, 10, 15, ''PORTFOLIO'', 2) :: breach_call list"
  have b1: "breaching (- 0.2, 10, 15, ''PORTFOLIO'', 1)"
    unfolding breaching_def split_conv pct_m02 using gt_20_15 by simp
  have b2: "breaching (0.12, 10, 15, ''PORTFOLIO'', 2)"
    unfolding breaching_def split_conv pct_012 using gt_12_10 by simp
  have h1: "\<forall>c \<in> set ?calls. breaching c"
    using b1 b2 by auto
  have h2: "CheckBreach (- 0.2) 10 15 ''PORTFOLIO'' 1 \<noteq> ResetCounts
      \<and> length (alerts (init_monitor 100)) \<le> maxlen (init_monitor 100)"
    by (simp add: init_monitor_def)
  have h3: "length ?calls = 150"
    by simp
  from alert_ring_and_counters [of 100 ?calls "[]" "init_monitor 100" "CheckBreach (- 0.2) 10 15 ''PORTFOLIO'' 1"]
    h1 h2 h3
  show ?thesis
    unfolding Let_def by simp
qed

section \<open>The aggregate operations\<close>

lemma str_nat_small: "n < 10 \<Longrightarrow> str_nat n = [digit_char n]"
  by (subst str_nat.simps) simp

lemma digit_chars: "digit_char 9 = CHR ''9''" "digit_char 5 = CHR ''5''"
  by (simp_all add: digit_char_def eval_nat_numeral)

lemma str_95: "str_nat 95 = ''95''"
  by (subst str_nat.simps) (simp add: str_nat_small digit_chars)

lemma str_99: "str_nat 99 = ''99''"
  by (subst str_nat.simps) (simp add: str_nat_small digit_chars)

lemma conf_label_95: "conf_label 0.95 = ''95%''"
  by (simp add: conf_label_def py_int_def str_int_def str_95)

lemma conf_label_99: "conf_label 0.99 = ''99%''"
  by (simp add: conf_label_def py_int_def str_int_def str_99)



lemma sub_results_unavailable:
  assumes "unavailable returns"
  shows "historical_var returns c v = Inr None" "parametric_var ppf returns c v = None"
    "expected_shortfall np_sum returns c v = None"
  using assms
  by (simp_all add: unavailable_def historical_var_def parametric_var_def expected_shortfall_def
      split: option.splits)

lemma metrics_for_confidence_unavailable:
  assumes "unavailable returns"
  shows "metrics_for_confidence np_sum ppf returns v m c = Inr m"
  by (simp add: metrics_for_confidence_def sub_results_unavailable [OF assms])

lemma sub_results_available:
  assumes "10 \<le> length rs" and "c = 0.95 \<or> c = 0.99"
  shows "\<exists>h p e. historical_var (Some rs) c v = Inr (Some h)
           \<and> parametric_var ppf (Some rs) c v = Some p
           \<and> expected_shortfall np_sum (Some rs) c v = Some e"
proof -
  have c: "1 / 2 ^ 51 \<le> c" "c \<le> 1"
    using assms(2) by auto
  from historical_var_value [OF assms(1) c, of v] assms(1) show ?thesis
    by (simp add: parametric_var_def expected_shortfall_def Let_def)
qed

lemma metrics_for_confidence_available:
  assumes "historical_var returns c v = Inr (Some h)"
    and "parametric_var ppf returns c v = Some p"
    and "expected_shortfall np_sum returns c v = Some e"
  shows "metrics_for_confidence np_sum ppf returns v m c =
           Inr (m(''var_'' @ conf_label c @ ''_hist'' \<mapsto> VarMetric h,
                  ''var_'' @ conf_label c @ ''_param'' \<mapsto> VarMetric p,
                  ''es_'' @ conf_label c \<mapsto> EsMetric e))"
  by (simp add: metrics_for_confidence_def assms Let_def)

lemma calculate_all_metrics_unavailable:
  assumes "unavailable returns"
  shows "calculate_all_metrics np_sum ppf returns v = Inr Map.empty"
  by (simp add: calculate_all_metrics_def metrics_for_confidence_unavailable [OF assms])

lemma calculate_all_metrics_available:
  assumes "10 \<le> length rs"
  shows "\<exists>h95 p95 e95 h99 p99 e99.
           historical_var (Some rs) 0.95 v = Inr (Some h95)
         \<and> parametric_var ppf (Some rs) 0.95 v = Some p95
         \<and> expected_shortfall np_sum (Some rs) 0.95 v = Some e95
         \<and> historical_var (Some rs) 0.99 v = Inr (Some h99)
         \<and> parametric_var ppf (Some rs) 0.99 v = Some p99
         \<and> expected_shortfall np_sum (Some rs) 0.99 v = Some e99
         \<and> calculate_all_metrics np_sum ppf (Some rs) v =
             Inr [''var_95%_hist'' \<mapsto> VarMetric h95, ''var_95%_param'' \<mapsto> VarMetric p95,
                  ''es_95%'' \<mapsto> EsMetric e95,
                  ''var_99%_hist'' \<mapsto> VarMetric h99, ''var_99%_param'' \<mapsto> VarMetric p99,
                  ''es_99%'' \<mapsto> EsMetric e99]"
proof -
  from sub_results_available [OF assms, of "0.95" v ppf np_sum] obtain h95 p95 e95 where
    a: "historical_var (Some rs) 0.95 v = Inr (Some h95)" "parametric_var ppf (Some rs) 0.95 v = Some p95"
      "expected_shortfall np_sum (Some rs) 0.95 v = Some e95"
    by auto
  from sub_results_available [OF assms, of "0.99" v ppf np_sum] obtain h99 p99 e99 where
    b: "historical_var (Some rs) 0.99 v = Inr (Some h99)" "parametric_var ppf (Some rs) 0.99 v = Some p99"
      "expected_shortfall np_sum (Some rs) 0.99 v = Some e99"
    by auto
  have "calculate_all_metrics np_sum ppf (Some rs) v =
             Inr [''var_95%_hist'' \<mapsto> VarMetric h95, ''var_95%_param'' \<mapsto> VarMetric p95,
                  ''es_95%'' \<mapsto> EsMetric e95,
                  ''var_99%_hist'' \<mapsto> VarMetric h99, ''var_99%_param'' \<mapsto> VarMetric p99,
                  ''es_99%'' \<mapsto> EsMetric e99]"
    unfolding calculate_all_metrics_def for_each.simps
      metrics_for_confidence_available [OF a] metrics_for_confidence_available [OF b] bind_err_simps
      conf_label_95 conf_label_99
    by simp
  with a b show ?thesis
    by blast
qed


lemma count_breaches_bounds:
  "0 \<le> count_breaches returns t" "count_breaches (Some rs) t \<le> int (length rs)"
  by (simp_all add: count_breaches_def Let_def split: option.splits)

lemma backtest_for_confidence_missing:
  assumes "var_metrics (''var_'' @ conf_label c @ ''_hist'') = None"
  shows "backtest_for_confidence cdf rs var_metrics results c = Inr results"
  using assms by (simp add: backtest_for_confidence_def Let_def)

lemma backtest_for_confidence_present:
  assumes "var_metrics (''var_'' @ conf_label c @ ''_hist'') = Some (VarMetric h)" and "rs \<noteq> []"
  shows "\<exists>k rate. kupiec_test cdf (count_breaches (Some rs) (var_return h)) (int (length rs)) c = Inr k
     \<and> backtest_for_confidence cdf rs var_metrics results c =
       Inr (results(conf_label c \<mapsto>
         \<lparr>report_breaches = count_breaches (Some rs) (var_return h),
          report_total_days = int (length rs),
          report_breach_rate = real_of_int (count_breaches (Some rs) (var_return h)) / real (length rs),
          report_expected_rate = 1 - c,
          report_traffic_light = fst (basel_traffic_light (count_breaches (Some rs) (var_return h)) (int (length rs)) c),
          report_traffic_message = snd (basel_traffic_light (count_breaches (Some rs) (var_return h)) (int (length rs)) c),
          report_kupiec_test = k\<rparr>))"
proof -
  let ?b = "count_breaches (Some rs) (var_return h)"
  have n: "int (length rs) \<noteq> 0"
    using assms(2) by simp
  from kupiec_total [OF n count_breaches_bounds(1) [of "Some rs" "var_return h"]
      count_breaches_bounds(2) [of rs "var_return h"]]
  obtain k where k: "kupiec_test cdf ?b (int (length rs)) c = Inr k"
    by blast
  have "py_truediv ?b (int (length rs)) = Inr (real_of_int ?b / real (length rs))"
    using n by (simp add: py_truediv_def)
  then show ?thesis
    unfolding backtest_for_confidence_def Let_def assms(1) option.case metric.case bind_err_simps k
    by simp
qed

lemma backtest_for_confidence_total:
  assumes "rs \<noteq> []"
    and "case var_metrics (''var_'' @ conf_label c @ ''_hist'') of Some (EsMetric e) \<Rightarrow> False | _ \<Rightarrow> True"
  shows "\<exists>results'. backtest_for_confidence cdf rs var_metrics results c = Inr results'
     \<and> (\<forall>l. l \<noteq> conf_label c \<longrightarrow> results' l = results l)
     \<and> (if var_metrics (''var_'' @ conf_label c @ ''_hist'') = None
         then results' (conf_label c) = results (conf_label c)
         else results' (conf_label c) \<noteq> None)"
proof (cases "var_metrics (''var_'' @ conf_label c @ ''_hist'')")
  case None
  then show ?thesis
    by (simp add: backtest_for_confidence_missing)
next
  case (Some entry)
  with assms(2) obtain h where "entry = VarMetric h"
    by (cases entry) auto
  with Some backtest_for_confidence_present [OF _ assms(1), of var_metrics c h cdf results]
  show ?thesis
    by auto
qed

lemma backtest_results_short:
  "backtest_results cdf None var_metrics v = Inr None"
  "length rs < 30 \<Longrightarrow> backtest_results cdf (Some rs) var_metrics v = Inr None"
  by (simp_all add: backtest_results_def)

lemma backtest_results_total:
  assumes "30 \<le> length rs" and "var_entries_ok var_metrics"
  shows "\<exists>results. backtest_results cdf (Some rs) var_metrics v = Inr (Some results)
     \<and> (results ''95%'' = None \<longleftrightarrow> var_metrics ''var_95%_hist'' = None)
     \<and> (results ''99%'' = None \<longleftrightarrow> var_metrics ''var_99%_hist'' = None)
     \<and> dom results \<subseteq> {''95%'', ''99%''}"
proof -
  have ne: "rs \<noteq> []"
    using assms(1) by auto
  have ok95: "case var_metrics (''var_'' @ conf_label 0.95 @ ''_hist'') of Some (EsMetric e) \<Rightarrow> False | _ \<Rightarrow> True"
    and ok99: "case var_metrics (''var_'' @ conf_label 0.99 @ ''_hist'') of Some (EsMetric e) \<Rightarrow> False | _ \<Rightarrow> True"
    using assms(2) unfolding var_entries_ok_def conf_label_95 conf_label_99 by simp_all
  from ne ok95
    backtest_for_confidence_total [where rs = rs and var_metrics = var_metrics and c = "0.95"
      and cdf = cdf and results = Map.empty]
  obtain r1 where r1: "backtest_for_confidence cdf rs var_metrics Map.empty 0.95 = Inr r1"
    "\<forall>l. l \<noteq> conf_label 0.95 \<longrightarrow> r1 l = None"
    "if var_metrics (''var_'' @ conf_label 0.95 @ ''_hist'') = None
         then r1 (conf_label 0.95) = None else r1 (conf_label 0.95) \<noteq> None"
    by auto
  from ne ok99
    backtest_for_confidence_total [where rs = rs and var_metrics = var_metrics and c = "0.99"
      and cdf = cdf and results = r1]
  obtain r2 where r2: "backtest_for_confidence cdf rs var_metrics r1 0.99 = Inr r2"
    "\<forall>l. l \<noteq> conf_label 0.99 \<longrightarrow> r2 l = r1 l"
    "if var_metrics (''var_'' @ conf_label 0.99 @ ''_hist'') = None
         then r2 (conf_label 0.99) = r1 (conf_label 0.99) else r2 (conf_label 0.99) \<noteq> None"
    by auto
  have "for_each (backtest_for_confidence cdf rs var_metrics) [0.95, 0.99] Map.empty = Inr r2"
    by (simp only: for_each_two r1(1) r2(1) bind_err_simps)
  then have res: "backtest_results cdf (Some rs) var_metrics v = Inr (Some r2)"
    using assms(1) unfolding backtest_results_def by simp
  have k95: "r2 ''95%'' = None \<longleftrightarrow> var_metrics ''var_95%_hist'' = None"
    using r1(2,3) r2(2) unfolding conf_label_95 conf_label_99 by (auto split: if_splits)
  have k99: "r2 ''99%'' = None \<longleftrightarrow> var_metrics ''var_99%_hist'' = None"
    using r1(2) r2(3) unfolding conf_label_95 conf_label_99 by (auto split: if_splits)
  have d: "dom r2 \<subseteq> {''95%'', ''99%''}"
  proof
    fix l assume "l \<in> dom r2"
    then have "r2 l \<noteq> None" by auto
    with r1(2) r2(2) show "l \<in> {''95%'', ''99%''}"
      unfolding conf_label_95 conf_label_99 by (cases "l = ''99%''"; cases "l = ''95%''") auto
  qed
  show ?thesis
    by (intro exI [of _ r2] conjI res k95 k99 d)
qed


lemma calculate_all_metrics_entries:
  "\<exists>m. calculate_all_metrics np_sum ppf returns v = Inr m
     \<and> (unavailable returns \<longrightarrow> m = Map.empty)
     \<and> m ''var_95%_hist'' = (case historical_var returns 0.95 v of Inr (Some h) \<Rightarrow> Some (VarMetric h) | _ \<Rightarrow> None)
     \<and> m ''var_95%_param'' = map_option VarMetric (parametric_var ppf returns 0.95 v)
     \<and> m ''es_95%'' = map_option EsMetric (expected_shortfall np_sum returns 0.95 v)
     \<and> m ''var_99%_hist'' = (case historical_var returns 0.99 v of Inr (Some h) \<Rightarrow> Some (VarMetric h) | _ \<Rightarrow> None)
     \<and> m ''var_99%_param'' = map_option VarMetric (parametric_var ppf returns 0.99 v)
     \<and> m ''es_99%'' = map_option EsMetric (expected_shortfall np_sum returns 0.99 v)
     \<and> dom m \<subseteq> {''var_95%_hist'', ''var_95%_param'', ''es_95%'', ''var_99%_hist'', ''var_99%_param'', ''es_99%''}
     \<and> var_entries_ok m"
proof (cases "unavailable returns")
  case True
  show ?thesis
    by (rule exI [of _ Map.empty])
      (simp add: calculate_all_metrics_unavailable [OF True] sub_results_unavailable [OF True]
        var_entries_ok_def)
next
  case False
  then obtain rs where rs: "returns = Some rs" "10 \<le> length rs"
    by (auto simp: unavailable_def split: option.splits)
  from calculate_all_metrics_available [OF rs(2), of v ppf np_sum]
  obtain h95 p95 e95 h99 p99 e99 where
    sub: "historical_var (Some rs) 0.95 v = Inr (Some h95)"
      "parametric_var ppf (Some rs) 0.95 v = Some p95"
      "expected_shortfall np_sum (Some rs) 0.95 v = Some e95"
      "historical_var (Some rs) 0.99 v = Inr (Some h99)"
      "parametric_var ppf (Some rs) 0.99 v = Some p99"
      "expected_shortfall np_sum (Some rs) 0.99 v = Some e99"
    and m: "calculate_all_metrics np_sum ppf (Some rs) v =
             Inr [''var_95%_hist'' \<mapsto> VarMetric h95, ''var_95%_param'' \<mapsto> VarMetric p95,
                  ''es_95%'' \<mapsto> EsMetric e95,
                  ''var_99%_hist'' \<mapsto> VarMetric h99, ''var_99%_param'' \<mapsto> VarMetric p99,
                  ''es_99%'' \<mapsto> EsMetric e99]"
    by blast
  show ?thesis
    unfolding rs(1) m sub
    by (rule exI [of _ "[''var_95%_hist'' \<mapsto> VarMetric h95, ''var_95%_param'' \<mapsto> VarMetric p95,
                  ''es_95%'' \<mapsto> EsMetric e95,
                  ''var_99%_hist'' \<mapsto> VarMetric h99, ''var_99%_param'' \<mapsto> VarMetric p99,
                  ''es_99%'' \<mapsto> EsMetric e99]"])
      (use rs(2) in \<open>simp add: unavailable_def var_entries_ok_def\<close>)
qed

text \<open>
  Claim C9.  \<^verbatim>\<open>calculate_all_metrics\<close> returns a mapping for every series, summation,
  normal quantile and position value: each of the six keys holds the result of its sub-computation when
  there is one and is absent otherwise, no other key is present, and the mapping is empty
  when there is no series or fewer than 10 returns.  \<^verbatim>\<open>backtest_results\<close>, on a series of
  at least 30 returns and a well-formed metrics mapping, returns a report mapping that has
  an entry for a confidence level exactly when the metrics mapping has its historical-VaR
  entry.
\<close>

theorem aggregates_omit_unavailable:
  "(\<exists>m. calculate_all_metrics np_sum ppf returns v = Inr m
     \<and> (unavailable returns \<longrightarrow> m = Map.empty)
     \<and> m ''var_95%_hist'' = (case historical_var returns 0.95 v of Inr (Some h) \<Rightarrow> Some (VarMetric h) | _ \<Rightarrow> None)
     \<and> m ''var_95%_param'' = map_option VarMetric (parametric_var ppf returns 0.95 v)
     \<and> m ''es_95%'' = map_option EsMetric (expected_shortfall np_sum returns 0.95 v)
     \<and> m ''var_99%_hist'' = (case historical_var returns 0.99 v of Inr (Some h) \<Rightarrow> Some (VarMetric h) | _ \<Rightarrow> None)
     \<and> m ''var_99%_param'' = map_option VarMetric (parametric_var ppf returns 0.99 v)
     \<and> m ''es_99%'' = map_option EsMetric (expected_shortfall np_sum returns 0.99 v)
     \<and> dom m \<subseteq> {''var_95%_hist'', ''var_95%_param'', ''es_95%'', ''var_99%_hist'', ''var_99%_param'', ''es_99%''}
     \<and> var_entries_ok m)
   \<and> (30 \<le> length rs \<and> var_entries_ok var_metrics \<longrightarrow>
        (\<exists>results. backtest_results cdf (Some rs) var_metrics v = Inr (Some results)
           \<and> (results ''95%'' = None \<longleftrightarrow> var_metrics ''var_95%_hist'' = None)
           \<and> (results ''99%'' = None \<longleftrightarrow> var_metrics ''var_99%_hist'' = None)
           \<and> dom results \<subseteq> {''95%'', ''99%''}))"
proof (rule conjI)
  show "30 \<le> length rs \<and> var_entries_ok var_metrics \<longrightarrow>
        (\<exists>results. backtest_results cdf (Some rs) var_metrics v = Inr (Some results)
           \<and> (results ''95%'' = None \<longleftrightarrow> var_metrics ''var_95%_hist'' = None)
           \<and> (results ''99%'' = None \<longleftrightarrow> var_metrics ''var_99%_hist'' = None)
           \<and> dom results \<subseteq> {''95%'', ''99%''})"
  proof
    assume "30 \<le> length rs \<and> var_entries_ok var_metrics"
    then have "30 \<le> length rs" and "var_entries_ok var_metrics"
      by simp_all
    then show "\<exists>results. backtest_results cdf (Some rs) var_metrics v = Inr (Some results)
           \<and> (results ''95%'' = None \<longleftrightarrow> var_metrics ''var_95%_hist'' = None)
           \<and> (results ''99%'' = None \<longleftrightarrow> var_metrics ''var_99%_hist'' = None)
           \<and> dom results \<subseteq> {''95%'', ''99%''}"
      by (rule backtest_results_total)
  qed
qed (rule calculate_all_metrics_entries)

theorem aggregates_omit_unavailable_witness:
  "\<forall>np_sum ppf cdf. calculate_all_metrics np_sum ppf (Some [0.01, - 0.02, 0.03]) 1000000 = Inr Map.empty
     \<and> (\<exists>results. backtest_results cdf (Some (replicate 30 0.01))
            [''var_99%_hist'' \<mapsto> VarMetric \<lparr>var_return = Fin 2, var_dollar = Fin 20000,
               var_confidence = 0.99, var_method = ''Historical Simulation''\<rparr>] 1000000
           = Inr (Some results)
          \<and> results ''95%'' = None \<and> results ''99%'' \<noteq> None)"
proof (intro allI)
  fix np_sum :: "real list \<Rightarrow> fval" and ppf :: "real \<Rightarrow> fval" and cdf :: "fval \<Rightarrow> fval"
  let ?vm = "[''var_99%_hist'' \<mapsto> VarMetric \<lparr>var_return = Fin 2, var_dollar = Fin 20000,
               var_confidence = 0.99, var_method = ''Historical Simulation''\<rparr>]"
  have h1: "unavailable (Some [0.01, - 0.02, 0.03])"
    by (simp add: unavailable_def)
  have h2: "30 \<le> length (replicate 30 (0.01::real)) \<and> var_entries_ok ?vm"
    by (simp add: var_entries_ok_def)
  have h3: "?vm ''var_95%_hist'' = None" "?vm ''var_99%_hist'' \<noteq> None"
    by simp_all
  note inst = aggregates_omit_unavailable [of np_sum ppf "Some [0.01, - 0.02, 0.03]" 1000000 "replicate 30 0.01" ?vm cdf]
  from inst [THEN conjunct1] h1
  have a: "calculate_all_metrics np_sum ppf (Some [0.01, - 0.02, 0.03]) 1000000 = Inr Map.empty"
    by (elim exE conjE) simp
  from inst [THEN conjunct2, rule_format, OF h2] obtain results where
    r: "backtest_results cdf (Some (replicate 30 0.01)) ?vm 1000000 = Inr (Some results)"
      "results ''95%'' = None \<longleftrightarrow> ?vm ''var_95%_hist'' = None"
      "results ''99%'' = None \<longleftrightarrow> ?vm ''var_99%_hist'' = None"
    by (elim exE conjE)
  from r(2,3) h3 have "results ''95%'' = None \<and> results ''99%'' \<noteq> None"
    by simp
  with a r(1)
  show "calculate_all_metrics np_sum ppf (Some [0.01, - 0.02, 0.03]) 1000000 = Inr Map.empty
     \<and> (\<exists>results. backtest_results cdf (Some (replicate 30 0.01)) ?vm 1000000 = Inr (Some results)
          \<and> results ''95%'' = None \<and> results ''99%'' \<noteq> None)"
    by (intro conjI exI [of _ results]) simp_all
qed


section \<open>Stress scenarios\<close>

lemma apply_scenario_asset_value:
  assumes "snd item \<noteq> 0"
  shows "apply_scenario_asset sc (results, tot) item =
     Inr (results(fst item \<mapsto> \<lparr>position = snd item, loss = scenario_loss sc item,
                                 loss_pct = scenario_loss sc item / snd item * 100\<rparr>),
          tot + scenario_loss sc item)"
  using assms
  by (cases item) (simp add: apply_scenario_asset_def scenario_loss_def Let_def split: option.splits)

lemma for_each_assets:
  assumes "\<forall>item \<in> set ps. snd item \<noteq> 0"
  shows "\<exists>results'. for_each (apply_scenario_asset sc) ps (results, tot)
           = Inr (results', tot + sum_list (map (scenario_loss sc) ps))
       \<and> (\<forall>s. s \<notin> fst ` set ps \<longrightarrow> results' s = results s)
       \<and> (distinct (map fst ps) \<longrightarrow> (\<forall>item \<in> set ps. results' (fst item) =
             Some \<lparr>position = snd item, loss = scenario_loss sc item,
                    loss_pct = scenario_loss sc item / snd item * 100\<rparr>))"
  using assms
proof (induction ps arbitrary: results tot)
  case Nil
  then show ?case by simp
next
  case (Cons item ps)
  let ?r = "results(fst item \<mapsto> \<lparr>position = snd item, loss = scenario_loss sc item,
                                 loss_pct = scenario_loss sc item / snd item * 100\<rparr>)"
  from Cons.prems have nz: "snd item \<noteq> 0" and rest: "\<forall>i \<in> set ps. snd i \<noteq> 0"
    by simp_all
  from Cons.IH [OF rest, of ?r "tot + scenario_loss sc item"]
  obtain results' where
    r: "for_each (apply_scenario_asset sc) ps (?r, tot + scenario_loss sc item)
           = Inr (results', tot + scenario_loss sc item + sum_list (map (scenario_loss sc) ps))"
      "\<forall>s. s \<notin> fst ` set ps \<longrightarrow> results' s = ?r s"
      "distinct (map fst ps) \<longrightarrow> (\<forall>i \<in> set ps. results' (fst i) =
             Some \<lparr>position = snd i, loss = scenario_loss sc i,
                    loss_pct = scenario_loss sc i / snd i * 100\<rparr>)"
    by blast
  have "for_each (apply_scenario_asset sc) (item # ps) (results, tot)
           = Inr (results', tot + sum_list (map (scenario_loss sc) (item # ps)))"
    unfolding for_each.simps apply_scenario_asset_value [OF nz] bind_err_simps r(1)
    by (simp add: add.assoc)
  moreover have "\<forall>s. s \<notin> fst ` set (item # ps) \<longrightarrow> results' s = results s"
    using r(2) by auto
  moreover have "distinct (map fst (item # ps)) \<longrightarrow> (\<forall>i \<in> set (item # ps). results' (fst i) =
             Some \<lparr>position = snd i, loss = scenario_loss sc i,
                    loss_pct = scenario_loss sc i / snd i * 100\<rparr>)"
    using r(2,3) by auto
  ultimately show ?case
    by blast
qed

text \<open>
  For a scenario of the catalog and positions that are all different from zero, the
  result has the specified loss for every instrument of the position map, and their
  sum as the total.
\<close>

lemma apply_scenario_losses:
  assumes "scenarios name = Some sc" and "\<forall>item \<in> set ps. snd item \<noteq> 0"
    and "distinct (map fst ps)"
  shows "\<exists>res. apply_scenario name ps rd = Inr (Some res)
     \<and> scenario_name res = scenario_title sc
     \<and> total_loss res = sum_list (map (scenario_loss sc) ps)
     \<and> (\<forall>item \<in> set ps. asset_breakdown res (fst item) =
           Some \<lparr>position = snd item, loss = scenario_loss sc item,
                  loss_pct = scenario_loss sc item / snd item * 100\<rparr>)
     \<and> dom (asset_breakdown res) = fst ` set ps"
proof -
  from for_each_assets [OF assms(2), of sc Map.empty 0] assms(3)
  obtain results where
    r: "for_each (apply_scenario_asset sc) ps (Map.empty, 0)
           = Inr (results, sum_list (map (scenario_loss sc) ps))"
      "\<forall>s. s \<notin> fst ` set ps \<longrightarrow> results s = None"
      "\<forall>item \<in> set ps. results (fst item) =
             Some \<lparr>position = snd item, loss = scenario_loss sc item,
                    loss_pct = scenario_loss sc item / snd item * 100\<rparr>"
    by auto
  have d: "dom results = fst ` set ps"
    using r(2,3) by (auto simp: dom_def)
  show ?thesis
    by (rule exI [of _ "\<lparr>scenario_name = scenario_title sc,
          total_loss = sum_list (map (scenario_loss sc) ps), asset_breakdown = results\<rparr>"])
      (simp add: apply_scenario_def assms(1) r(1) r(3) d)
qed

lemma apply_scenario_unknown: "scenarios name = None \<Longrightarrow> apply_scenario name ps rd = Inr None"
  by (simp add: apply_scenario_def)

text \<open>The example of the specification: losses 1500000 and 675000, total 2175000.\<close>

lemma apply_scenario_market_crash:
  "apply_scenario ''market_crash'' [(''^NSEI'', 10000000), (''RELIANCE.NS'', 5000000)] ()
     = Inr (Some \<lparr>scenario_name = ''Market Crash (-3'' @ [CHR 0xCF, CHR 0x83] @ '')'',
                  total_loss = 2175000,
                  asset_breakdown =
                    [''^NSEI'' \<mapsto> \<lparr>position = 10000000, loss = 1500000, loss_pct = 15\<rparr>,
                     ''RELIANCE.NS'' \<mapsto> \<lparr>position = 5000000, loss = 675000, loss_pct = 13.5\<rparr>]\<rparr>)"
  by (simp add: apply_scenario_def scenarios_def apply_scenario_asset_def)

text \<open>
  Claim C8 holds on every position map without a zero position (the three lemmas above).
  On a map with a zero position the code does not deliver the losses and their total: the
  loss of that instrument is 0, and the division for its percentage raises.
\<close>

theorem apply_scenario_zero_position:
  "apply_scenario ''market_crash'' [(''^NSEI'', 10000000), (''RELIANCE.NS'', 0)] ()
     = Inl ZeroDivisionError"
  by (simp add: apply_scenario_def scenarios_def apply_scenario_asset_def)

end
